theory Spec2Isabelle
  imports Main "HOL-Library.Sublist"
begin

section \<open>JavaScript strings\<close>

text \<open>
  A JavaScript string is a sequence of UTF-16 code units; the regular expressions of the
  scripts carry no \<open>u\<close> flag, so they too work on code units. A code unit is a natural
  number here (below 65536 in every string the runtime can build), a string a list of them.
  \<open>js\<close> writes a string of ASCII characters.
\<close>

type_synonym jsstring = "nat list"

definition js :: "string \<Rightarrow> jsstring" where
  "js s = map of_char s"

definition hyphen :: nat where
  "hyphen = 45"

definition nl :: nat where
  "nl = 10"

text \<open>
  \<open>startsWith\<close>, \<open>endsWith\<close>, \<open>includes\<close>, \<open>slice(1, -1)\<close>, and \<open>split\<close> and \<open>join\<close> with a
  separator of one code unit. \<open>split\<close> never returns the empty list: the split of the
  empty string is the list of one empty string.
\<close>

definition startsWith :: "jsstring \<Rightarrow> jsstring \<Rightarrow> bool" where
  "startsWith s p = (take (length p) s = p)"

definition endsWith :: "jsstring \<Rightarrow> jsstring \<Rightarrow> bool" where
  "endsWith s p = (length p \<le> length s \<and> drop (length s - length p) s = p)"

fun js_includes :: "jsstring \<Rightarrow> jsstring \<Rightarrow> bool" where
  "js_includes [] p = (p = [])"
| "js_includes (c # cs) p = (startsWith (c # cs) p \<or> js_includes cs p)"

definition slice_1_m1 :: "jsstring \<Rightarrow> jsstring" where
  "slice_1_m1 s = butlast (tl s)"

fun js_split :: "nat \<Rightarrow> jsstring \<Rightarrow> jsstring list" where
  "js_split d [] = [[]]"
| "js_split d (c # cs) =
     (if c = d then [] # js_split d cs
      else (case js_split d cs of [] \<Rightarrow> [[c]] | x # xs \<Rightarrow> (c # x) # xs))"

fun js_join :: "jsstring \<Rightarrow> jsstring list \<Rightarrow> jsstring" where
  "js_join sep [] = []"
| "js_join sep [x] = x"
| "js_join sep (x # y # ys) = x @ sep @ js_join sep (y # ys)"

text \<open>
  The code units \<open>\s\<close> matches and \<open>trim\<close> strips (white space and line terminators),
  the line terminators \<open>.\<close> does not match, and the digits of \<open>\d\<close>.
\<close>

definition isWhiteSpace :: "nat \<Rightarrow> bool" where
  "isWhiteSpace c =
     (c \<in> {9, 10, 11, 12, 13, 32, 160, 5760, 8232, 8233, 8239, 8287, 12288, 65279}
      \<or> (8192 \<le> c \<and> c \<le> 8202))"

definition isLineTerminator :: "nat \<Rightarrow> bool" where
  "isLineTerminator c = (c \<in> {10, 13, 8232, 8233})"

definition isDigit :: "nat \<Rightarrow> bool" where
  "isDigit c = (48 \<le> c \<and> c \<le> 57)"

definition js_trim :: "jsstring \<Rightarrow> jsstring" where
  "js_trim s = rev (dropWhile isWhiteSpace (rev (dropWhile isWhiteSpace s)))"

text \<open>
  The values the scripts handle without knowing their type: a frontmatter value of the
  push script (a string, a boolean or a list of strings) and the result of
  getPropertyValue of the pull script (the same, or null). \<open>undefined\<close> is \<open>None\<close> of an
  option. \<open>truthy\<close> is the test of \<open>!v\<close>, \<open>v || w\<close> and \<open>if (v)\<close>; \<open>toString\<close> is the
  conversion a template literal and \<open>String.prototype.includes\<close> apply.
\<close>

datatype jsvalue = Null | Str jsstring | Bool bool | StrList "jsstring list"

fun truthy :: "jsvalue \<Rightarrow> bool" where
  "truthy Null = False"
| "truthy (Str s) = (s \<noteq> [])"
| "truthy (Bool b) = b"
| "truthy (StrList l) = True"

fun toString :: "jsvalue \<Rightarrow> jsstring" where
  "toString Null = js ''null''"
| "toString (Str s) = s"
| "toString (Bool b) = (if b then js ''true'' else js ''false'')"
| "toString (StrList l) = js_join (js '','') l"

section \<open>Pull script: generateSlug\<close>

text \<open>
  The character class of generateSlug: a to z, 0 to 9 and the code units U+4E00 to U+9FA5.
\<close>

definition is_slug_char :: "nat \<Rightarrow> bool" where
  "is_slug_char c =
     ((97 \<le> c \<and> c \<le> 122) \<or> (48 \<le> c \<and> c \<le> 57) \<or> (19968 \<le> c \<and> c \<le> 40869))"

text \<open>
  The first \<open>replace\<close> of generateSlug, with the \<open>g\<close> flag: scanning from the left, every maximal run
  of code units outside the class (the \<open>+\<close> is greedy) is replaced by one hyphen.
\<close>

function replace_runs :: "jsstring \<Rightarrow> jsstring" where
  "replace_runs [] = []"
| "replace_runs (c # cs) =
     (if is_slug_char c then c # replace_runs cs
      else hyphen # replace_runs (dropWhile (\<lambda>d. \<not> is_slug_char d) cs))"
  by pat_completeness auto
termination
  by (relation "measure length") (auto simp: less_Suc_eq_le length_dropWhile_le)

text \<open>
  \<open>s.replace(/^-+|-+$/g, "")\<close>: the first alternative matches the hyphens at the start of
  the string, the second the hyphens that reach its end; both are deleted.
\<close>

definition trim_hyphens :: "jsstring \<Rightarrow> jsstring" where
  "trim_hyphens s =
     rev (dropWhile (\<lambda>c. c = hyphen) (rev (dropWhile (\<lambda>c. c = hyphen) s)))"

text \<open>
  generateSlug. \<open>String.prototype.toLowerCase\<close> is the runtime's Unicode case mapping; it
  is the parameter \<open>lower\<close>.
\<close>

definition generateSlug :: "(jsstring \<Rightarrow> jsstring) \<Rightarrow> jsstring \<Rightarrow> jsstring" where
  "generateSlug lower title = trim_hyphens (replace_runs (lower title))"

text \<open>
  The case mapping on the strings of the examples: the letters A to Z go to a to z; the
  other code units of those strings are not cased.
\<close>

definition lower_unit :: "nat \<Rightarrow> nat" where
  "lower_unit c = (if 65 \<le> c \<and> c \<le> 90 then c + 32 else c)"

definition toLowerCase :: "jsstring \<Rightarrow> jsstring" where
  "toLowerCase s = map lower_unit s"

text \<open>What the claims say of a slug.\<close>

definition slug_alphabet :: "jsstring \<Rightarrow> bool" where
  "slug_alphabet s = list_all (\<lambda>c. is_slug_char c \<or> c = hyphen) s"

fun no_double_hyphen :: "jsstring \<Rightarrow> bool" where
  "no_double_hyphen (a # b # cs) = (\<not> (a = hyphen \<and> b = hyphen) \<and> no_double_hyphen (b # cs))"
| "no_double_hyphen _ = True"

definition no_edge_hyphen :: "jsstring \<Rightarrow> bool" where
  "no_edge_hyphen s = (case s of [] \<Rightarrow> True | c # _ \<Rightarrow> c \<noteq> hyphen \<and> last s \<noteq> hyphen)"

section \<open>Push script\<close>

subsection \<open>parseFrontmatter\<close>

text \<open>
  The frontmatter object is used as an open property bag
  (\<open>(frontmatter as Record<string, unknown>)[key] = ...\<close>): a map from keys to values. It
  starts as \<open>{ title: "", date: "" }\<close>.
\<close>

type_synonym frontmatter = "jsstring \<rightharpoonup> jsvalue"

datatype error =
    NoFrontmatter
  | NotionApiError nat jsstring
  | RequestFailed
  | TypeError
  | IOError
  | QueryError
  | ConversionError
  | StateWriteError

definition initial_frontmatter :: frontmatter where
  "initial_frontmatter = [js ''title'' \<mapsto> Str [], js ''date'' \<mapsto> Str []]"

text \<open>
  The first occurrence of a separator in a string: the text before it and the text after it.
\<close>

fun find_sep :: "jsstring \<Rightarrow> jsstring \<Rightarrow> (jsstring \<times> jsstring) option" where
  "find_sep sep [] = (if sep = [] then Some ([], []) else None)"
| "find_sep sep (c # cs) =
     (if startsWith (c # cs) sep then Some ([], drop (length sep) (c # cs))
      else (case find_sep sep cs of None \<Rightarrow> None | Some (a, b) \<Rightarrow> Some (c # a, b)))"

text \<open>
  The regular expression of parseFrontmatter: three hyphens and a newline at the start of
  the file, the shortest text up to a newline, three hyphens and a newline (the first group
  is lazy), and the rest of the file. The result is the two groups.
\<close>

definition frontmatterRegex :: "jsstring \<Rightarrow> (jsstring \<times> jsstring) option" where
  "frontmatterRegex s =
     (if startsWith s (js ''---'' @ [nl]) then find_sep (nl # js ''---'' @ [nl]) (drop 4 s)
      else None)"

definition quoted :: "jsstring \<Rightarrow> bool" where
  "quoted v = ((startsWith v (js ''\"'') \<and> endsWith v (js ''\"'')) \<or>
               (startsWith v [39] \<and> endsWith v [39]))"

definition unquote :: "jsstring \<Rightarrow> jsstring" where
  "unquote v = (if quoted v then slice_1_m1 v else v)"

definition parse_value :: "jsstring \<Rightarrow> jsvalue" where
  "parse_value v0 =
     (let v = unquote v0 in
      if startsWith v (js ''['') \<and> endsWith v (js '']'') then
        StrList (filter (\<lambda>i. length i > 0)
          (map (\<lambda>item. unquote (js_trim item)) (js_split 44 (slice_1_m1 v))))
      else if v = js ''true'' then Bool True
      else if v = js ''false'' then Bool False
      else Str v)"

text \<open>One pass of the loop over the header's lines; 58 is the colon.\<close>

definition parse_line :: "frontmatter \<Rightarrow> jsstring \<Rightarrow> frontmatter" where
  "parse_line fm line =
     (if 58 \<notin> set line then fm
      else
        let k = js_trim (takeWhile (\<lambda>c. c \<noteq> 58) line);
            v = js_trim (tl (dropWhile (\<lambda>c. c \<noteq> 58) line))
        in fm(k \<mapsto> parse_value v))"

definition parseFrontmatter :: "jsstring \<Rightarrow> error + (frontmatter \<times> jsstring)" where
  "parseFrontmatter fileContent =
     (case frontmatterRegex fileContent of
        None \<Rightarrow> Inl NoFrontmatter
      | Some (frontmatterStr, content) \<Rightarrow>
          Inr (foldl parse_line initial_frontmatter (js_split nl frontmatterStr),
               js_trim content))"

subsection \<open>markdownToNotionBlocks\<close>

text \<open>
  A block carries its type and the one text of its \<open>rich_text\<close>; a code block carries its
  language too.
\<close>

datatype block =
    Heading_1 jsstring
  | Heading_2 jsstring
  | Heading_3 jsstring
  | Code jsstring jsstring
  | Bulleted_list_item jsstring
  | Numbered_list_item jsstring
  | Quote jsstring
  | Paragraph jsstring

text \<open>
  The match of a numbered list item: digits, a dot, white space, and the rest of
  the line up to its end, which \<open>.\<close> must reach without meeting a line terminator. The
  result is the group, the text after the white space.
\<close>

definition numberedMatch :: "jsstring \<Rightarrow> jsstring option" where
  "numberedMatch line =
     (if takeWhile isDigit line = [] then None
      else (case dropWhile isDigit line of
              [] \<Rightarrow> None
            | c # r \<Rightarrow>
                if c \<noteq> 46 \<or> takeWhile isWhiteSpace r = [] then None
                else if list_ex isLineTerminator (dropWhile isWhiteSpace r) then None
                else Some (dropWhile isWhiteSpace r)))"

definition fence :: jsstring where
  "fence = js ''```''"

definition code_language :: "jsstring \<Rightarrow> jsstring" where
  "code_language line =
     (if js_trim (drop 3 line) = [] then js ''plain text'' else js_trim (drop 3 line))"

text \<open>
  The scan of markdownToNotionBlocks. The cursor \<open>i\<close> of the source is the list of the
  lines from \<open>lines[i]\<close> on; the blocks are returned in the order the source pushes them.
  For a code block the inner loop takes the lines up to the next line that starts with
  the fence, and the \<open>i++\<close> after it steps over that line, or past the end when there is
  none.
\<close>

function scan_lines :: "jsstring list \<Rightarrow> block list" where
  "scan_lines [] = []"
| "scan_lines (line # rest) =
     (if js_trim line = [] then scan_lines rest
      else if startsWith line (js ''### '') then Heading_3 (drop 4 line) # scan_lines rest
      else if startsWith line (js ''## '') then Heading_2 (drop 3 line) # scan_lines rest
      else if startsWith line (js ''# '') then Heading_1 (drop 2 line) # scan_lines rest
      else if startsWith line fence then
        Code (js_join [nl] (takeWhile (\<lambda>l. \<not> startsWith l fence) rest)) (code_language line)
          # scan_lines (drop 1 (dropWhile (\<lambda>l. \<not> startsWith l fence) rest))
      else if startsWith line (js ''- '') \<or> startsWith line (js ''* '') then
        Bulleted_list_item (drop 2 line) # scan_lines rest
      else (case numberedMatch line of
              Some t \<Rightarrow> Numbered_list_item t # scan_lines rest
            | None \<Rightarrow>
                if startsWith line (js ''> '') then Quote (drop 2 line) # scan_lines rest
                else Paragraph line # scan_lines rest))"
  by pat_completeness auto
termination
  by (relation "measure length")
    (auto simp: less_Suc_eq_le intro: le_trans [OF diff_le_self length_dropWhile_le])

definition markdownToNotionBlocks :: "jsstring \<Rightarrow> block list" where
  "markdownToNotionBlocks markdown = scan_lines (js_split nl markdown)"

subsection \<open>notionRequest and createNotionPage\<close>

text \<open>
  The property set of a new page. \<open>Name\<close> and \<open>Slug\<close> carry the frontmatter value as it
  is; \<open>Published\<close> is a string; \<open>Tags\<close> and \<open>Slug\<close> are present only under their tests.
\<close>

record properties =
  Name :: "jsvalue option"
  Published :: jsstring
  Tags :: "jsstring list option"
  Slug :: "jsvalue option"

datatype http_method = GET | POST | PATCH

datatype request_body =
    Page_body properties "block list"
  | Children_body "block list"

record request =
  endpoint :: jsstring
  req_method :: http_method
  req_body :: request_body

text \<open>
  What the remote service answers to a request: a success, whose JSON body has the field
  \<open>id\<close> or lacks it; a status that is not a success, with the status and the text of the
  body; or no usable answer at all (\<open>fetch\<close> rejects, or the body is not a JSON object).
\<close>

datatype response =
    Ok "jsstring option"
  | Not_ok nat jsstring
  | No_answer

text \<open>
  The state of a push run: the requests sent so far, in order, and the files of the disk.
  The remote service is outside the program: \<open>service\<close> gives its answer to a request
  from the requests sent so far, the new one last. \<open>disk\<close> gives the text of a file, or
  nothing where \<open>readFileSync\<close> throws.
\<close>

record push_world =
  sent :: "request list"
  service :: "request list \<Rightarrow> response"
  disk :: "jsstring \<Rightarrow> jsstring option"

definition notionRequest ::
  "jsstring \<Rightarrow> http_method \<Rightarrow> request_body \<Rightarrow> push_world \<Rightarrow> (error + jsstring option) \<times> push_world" where
  "notionRequest ep m b w =
     (let rq = \<lparr>endpoint = ep, req_method = m, req_body = b\<rparr>;
          w' = w\<lparr>sent := sent w @ [rq]\<rparr>
      in case service w (sent w') of
           Ok i \<Rightarrow> (Inr i, w')
         | Not_ok status errorText \<Rightarrow> (Inl (NotionApiError status errorText), w')
         | No_answer \<Rightarrow> (Inl RequestFailed, w'))"

text \<open>
  \<open>[...(v || [])]\<close> for a frontmatter value: an absent or falsy value gives no element, a
  list its elements, a string its code points (a surrogate pair is one element), and
  \<open>true\<close> is not iterable.
\<close>

definition isHighSurrogate :: "nat \<Rightarrow> bool" where
  "isHighSurrogate c = (55296 \<le> c \<and> c \<le> 56319)"

definition isLowSurrogate :: "nat \<Rightarrow> bool" where
  "isLowSurrogate c = (56320 \<le> c \<and> c \<le> 57343)"

fun code_points :: "jsstring \<Rightarrow> jsstring list" where
  "code_points (a # b # cs) =
     (if isHighSurrogate a \<and> isLowSurrogate b then [a, b] # code_points cs
      else [a] # code_points (b # cs))"
| "code_points [a] = [[a]]"
| "code_points [] = []"

fun spread_or_empty :: "jsvalue option \<Rightarrow> error + jsstring list" where
  "spread_or_empty None = Inr []"
| "spread_or_empty (Some Null) = Inr []"
| "spread_or_empty (Some (Str s)) = Inr (code_points s)"
| "spread_or_empty (Some (Bool b)) = (if b then Inl TypeError else Inr [])"
| "spread_or_empty (Some (StrList l)) = Inr l"

text \<open>
  \<open>frontmatter.date.split(" ")[0].split("T")[0]\<close>: the text before the first space and
  before the first \<open>T\<close>; \<open>split\<close> exists on a string only.
\<close>

fun date_part :: "jsvalue option \<Rightarrow> error + jsstring" where
  "date_part (Some (Str s)) = Inr (takeWhile (\<lambda>c. c \<noteq> 84) (takeWhile (\<lambda>c. c \<noteq> 32) s))"
| "date_part _ = Inl TypeError"

definition is_truthy :: "jsvalue option \<Rightarrow> bool" where
  "is_truthy v = (case v of None \<Rightarrow> False | Some x \<Rightarrow> truthy x)"

definition build_properties :: "frontmatter \<Rightarrow> error + properties" where
  "build_properties fm =
     (case spread_or_empty (fm (js ''tags'')) of
        Inl e \<Rightarrow> Inl e
      | Inr tags \<Rightarrow>
     (case spread_or_empty (fm (js ''categories'')) of
        Inl e \<Rightarrow> Inl e
      | Inr categories \<Rightarrow>
     (case date_part (fm (js ''date'')) of
        Inl e \<Rightarrow> Inl e
      | Inr d \<Rightarrow>
          Inr \<lparr>Name = fm (js ''title''),
               Published = d,
               Tags = (if length (tags @ categories) > 0 then Some (tags @ categories) else None),
               Slug = (if is_truthy (fm (js ''slug'')) then fm (js ''slug'') else None)\<rparr>)))"

text \<open>
  \<open>`/blocks/${page.id}/children`\<close>; an \<open>id\<close> the answer lacks prints as \<open>undefined\<close>.
\<close>

definition children_endpoint :: "jsstring option \<Rightarrow> jsstring" where
  "children_endpoint i =
     js ''/blocks/'' @ (case i of None \<Rightarrow> js ''undefined'' | Some s \<Rightarrow> s) @ js ''/children''"

text \<open>
  The loop that appends the remaining blocks, \<open>chunkSize\<close> at a time, one request after
  the other; a request that fails ends the loop with its error.
\<close>

definition chunkSize :: nat where
  "chunkSize = 100"

function append_chunks ::
  "jsstring option \<Rightarrow> block list \<Rightarrow> nat \<Rightarrow> push_world \<Rightarrow> (error + unit) \<times> push_world" where
  "append_chunks page_id remainingBlocks i w =
     (if i < length remainingBlocks then
        (case notionRequest (children_endpoint page_id) PATCH
                (Children_body (take chunkSize (drop i remainingBlocks))) w of
           (Inl e, w') \<Rightarrow> (Inl e, w')
         | (Inr _, w') \<Rightarrow> append_chunks page_id remainingBlocks (i + chunkSize) w')
      else (Inr (), w))"
  by pat_completeness auto
termination
  by (relation "measure (\<lambda>(p, r, i, w). length r - i)") (auto simp: chunkSize_def)

definition createNotionPage ::
  "frontmatter \<Rightarrow> jsstring \<Rightarrow> push_world \<Rightarrow> (error + jsstring option) \<times> push_world" where
  "createNotionPage fm content w =
     (case build_properties fm of
        Inl e \<Rightarrow> (Inl e, w)
      | Inr props \<Rightarrow>
          let blocks = markdownToNotionBlocks content;
              firstChunk = take 100 blocks;
              remainingBlocks = drop 100 blocks
          in case notionRequest (js ''/pages'') POST (Page_body props firstChunk) w of
               (Inl e, w') \<Rightarrow> (Inl e, w')
             | (Inr page_id, w') \<Rightarrow>
                 (case append_chunks page_id remainingBlocks 0 w' of
                    (Inl e, w'') \<Rightarrow> (Inl e, w'')
                  | (Inr _, w'') \<Rightarrow> (Inr page_id, w'')))"

declare append_chunks.simps [simp del]

text \<open>The two kinds of request createNotionPage sends.\<close>

definition page_request :: "properties \<Rightarrow> block list \<Rightarrow> request" where
  "page_request props chunk =
     \<lparr>endpoint = js ''/pages'', req_method = POST, req_body = Page_body props chunk\<rparr>"

definition children_request :: "jsstring option \<Rightarrow> block list \<Rightarrow> request" where
  "children_request page_id chunk =
     \<lparr>endpoint = children_endpoint page_id, req_method = PATCH, req_body = Children_body chunk\<rparr>"

section \<open>Pull script\<close>

subsection \<open>Pages and getPropertyValue\<close>

text \<open>
  A property of a page, by its type, with what getPropertyValue reads of it: the plain
  texts of the rich text items; \<open>date?.start\<close> and \<open>select?.name\<close> (nothing when the date
  or the select is null); the names of a multi-select; the checkbox; the created time.
\<close>

datatype property =
    Title_prop "jsstring list"
  | Rich_fileTextprop "jsstring list"
  | Date_prop "jsstring option"
  | Multi_select_prop "jsstring list"
  | Select_prop "jsstring option"
  | Checkbox_prop bool
  | Created_time_prop jsstring
  | Other_prop

text \<open>
  A result of the query: its id, whether it has the key \<open>properties\<close> (a partial page
  object has not), and its properties by name.
\<close>

record page =
  ident :: jsstring
  has_properties :: bool
  prop_map :: "jsstring \<rightharpoonup> property"

definition getRichTextContent :: "jsstring list \<Rightarrow> jsstring" where
  "getRichTextContent richText = concat richText"

text \<open>\<open>x || null\<close> for a string that may be missing.\<close>

definition or_null :: "jsstring option \<Rightarrow> jsvalue" where
  "or_null x = (case x of None \<Rightarrow> Null | Some s \<Rightarrow> if s = [] then Null else Str s)"

fun property_value :: "property \<Rightarrow> jsvalue" where
  "property_value (Title_prop t) = Str (getRichTextContent t)"
| "property_value (Rich_fileTextprop t) = Str (getRichTextContent t)"
| "property_value (Date_prop d) = or_null d"
| "property_value (Multi_select_prop names) = StrList names"
| "property_value (Select_prop n) = or_null n"
| "property_value (Checkbox_prop b) = Bool b"
| "property_value (Created_time_prop t) = Str t"
| "property_value Other_prop = Null"

definition getPropertyValue :: "page \<Rightarrow> jsstring \<Rightarrow> jsvalue" where
  "getPropertyValue pg propertyName =
     (case prop_map pg propertyName of None \<Rightarrow> Null | Some p \<Rightarrow> property_value p)"

text \<open>
  A blog post. The fields come from getPropertyValue through type assertions that check
  nothing (\<open>as string\<close>), so they hold values; the content is the text of the converter.
\<close>

record BlogPost =
  post_id :: jsstring
  post_title :: jsvalue
  post_slug :: jsvalue
  post_date :: jsvalue
  post_tags :: jsvalue
  post_content :: jsstring

subsection \<open>The state of a pull run\<close>

record SyncState =
  lastSyncTime :: jsstring

text \<open>
  The sync-state file, when it exists: unreadable (\<open>readFileSync\<close> or \<open>JSON.parse\<close> throws)
  or holding a sync state.
\<close>

datatype state_file = Unreadable | Stored SyncState

record query_args =
  start_cursor :: "jsstring option"
  filter_after :: "jsstring option"

record query_response =
  results :: "page list"
  has_more :: bool
  next_cursor :: "jsstring option"

datatype query_answer = Answer query_response | Query_throws

datatype fs_op =
    Mkdir jsstring
  | Readdir jsstring
  | Write jsstring jsstring
  | Write_state

text \<open>The lines the script prints.\<close>

datatype message =
    Load_failed
  | Fetching_posts
  | Incremental_sync jsstring
  | Full_sync
  | Skipping_page jsstring
  | No_new_posts
  | Found_posts nat
  | Updating_existing jsstring
  | Written jsstring jsstring
  | Sync_completed jsstring

text \<open>
  The state of a pull run and what surrounds it.
  \<^item> \<open>clock\<close>: what \<open>new Date().toISOString()\<close> returns once \<open>n\<close> queries have been sent;
  \<open>now\<close> is its value in a state. \<open>syncStateFile\<close>: the sync-state file, if it exists. \<open>yearDirs\<close>: for a year, the
  directory of that year under the content directory, if it exists, as the list of its
  files (name and text) in the order \<open>readdirSync\<close> returns them; a year directory holds
  files only. The sync-state file lies outside the content directory.
  \<^item> \<open>queries\<close>: the queries sent so far. \<open>data_source\<close>: the answer of the remote service
  to a query, from the queries sent so far, the new one last. \<open>page_markdown\<close>: the
  Markdown the converter returns for a page id (\<open>pageToMarkdown\<close>, then the \<open>parent\<close> of
  \<open>toMarkdownString\<close>), or nothing where it throws.
  \<^item> \<open>fs_fails\<close>: the file-system operations that throw. \<open>damaged\<close>: what a failed write
  of the sync-state file leaves of it. \<open>slash_write\<close>: the outcome of writing a file whose
  name holds a slash (see \<open>writeFile\<close>).
  \<^item> \<open>console\<close>: the lines printed so far.
  \<^item> The runtime: \<open>lowerCase\<close> is \<open>String.prototype.toLowerCase\<close>; \<open>date_time\<close> is the
  time value \<open>new Date(s).getTime()\<close> of a string, nothing for an invalid date (NaN);
  \<open>full_year\<close> is \<open>getFullYear\<close> of a time value, in the local time zone; \<open>big_parse\<close>,
  \<open>big_plus\<close> and \<open>big_string\<close> are \<open>parseInt\<close>, \<open>+\<close> and \<open>String\<close> where a number
  reaches \<open>2^53\<close> (see \<open>parseInt\<close>).
\<close>

record pull_world =
  clock :: "nat \<Rightarrow> jsstring"
  syncStateFile :: "state_file option"
  yearDirs :: "jsstring \<Rightarrow> (jsstring \<times> jsstring) list option"
  queries :: "query_args list"
  data_source :: "query_args list \<Rightarrow> query_answer"
  page_markdown :: "jsstring \<Rightarrow> jsstring option"
  fs_fails :: "fs_op \<Rightarrow> bool"
  damaged :: "state_file option"
  console :: "message list"
  lowerCase :: "jsstring \<Rightarrow> jsstring"
  date_time :: "jsstring \<Rightarrow> int option"
  full_year :: "int \<Rightarrow> int"
  slash_write :: "jsstring \<Rightarrow> jsstring \<Rightarrow> jsstring
     \<Rightarrow> (jsstring \<Rightarrow> (jsstring \<times> jsstring) list option)
     \<Rightarrow> (jsstring \<Rightarrow> (jsstring \<times> jsstring) list option) option"
  big_parse :: "jsstring \<Rightarrow> nat"
  big_plus :: "nat \<Rightarrow> nat \<Rightarrow> nat"
  big_string :: "nat \<Rightarrow> jsstring"

definition now :: "pull_world \<Rightarrow> jsstring" where
  "now w = clock w (length (queries w))"

definition print :: "message \<Rightarrow> pull_world \<Rightarrow> pull_world" where
  "print m w = w\<lparr>console := console w @ [m]\<rparr>"

subsection \<open>loadSyncState and saveSyncState\<close>

definition loadSyncState :: "pull_world \<Rightarrow> SyncState option \<times> pull_world" where
  "loadSyncState w =
     (case syncStateFile w of
        None \<Rightarrow> (None, w)
      | Some Unreadable \<Rightarrow> (None, print Load_failed w)
      | Some (Stored s) \<Rightarrow> (Some s, w))"

definition saveSyncState :: "SyncState \<Rightarrow> pull_world \<Rightarrow> (error + unit) \<times> pull_world" where
  "saveSyncState st w =
     (if fs_fails w Write_state then (Inl StateWriteError, w\<lparr>syncStateFile := damaged w\<rparr>)
      else (Inr (), w\<lparr>syncStateFile := Some (Stored st)\<rparr>))"

subsection \<open>fetchBlogPosts\<close>

definition js_or :: "jsvalue \<Rightarrow> jsvalue \<Rightarrow> jsvalue" where
  "js_or a b = (if truthy a then a else b)"

text \<open>generateSlug applied to a value: \<open>toLowerCase\<close> exists on a string only.\<close>

fun slug_of_title :: "(jsstring \<Rightarrow> jsstring) \<Rightarrow> jsvalue \<Rightarrow> error + jsvalue" where
  "slug_of_title lower (Str t) = Inr (Str (generateSlug lower t))"
| "slug_of_title lower _ = Inl TypeError"

text \<open>
  The loop over the results of one query. A result without properties is passed over; a
  page without a title or a date is passed over with a warning; for the others the
  Markdown is fetched and the post is pushed.
\<close>

fun process_pages ::
  "page list \<Rightarrow> BlogPost list \<Rightarrow> pull_world \<Rightarrow> (error + BlogPost list) \<times> pull_world" where
  "process_pages [] posts w = (Inr posts, w)"
| "process_pages (pg # rest) posts w =
     (if \<not> has_properties pg then process_pages rest posts w
      else
        let title = getPropertyValue pg (js ''Name'');
            slug = getPropertyValue pg (js ''Slug'');
            publishedDate = getPropertyValue pg (js ''Published'');
            createdTime = getPropertyValue pg (js ''Created time'');
            tags = js_or (getPropertyValue pg (js ''Tags'')) (StrList []);
            date = js_or publishedDate createdTime
        in if \<not> truthy title \<or> \<not> truthy date then
             process_pages rest posts (print (Skipping_page (ident pg)) w)
           else
             (case page_markdown w (ident pg) of
                None \<Rightarrow> (Inl ConversionError, w)
              | Some content \<Rightarrow>
                  (case (if truthy slug then Inr slug else slug_of_title (lowerCase w) title) of
                     Inl e \<Rightarrow> (Inl e, w)
                   | Inr s \<Rightarrow>
                       process_pages rest
                         (posts @ [\<lparr>post_id = ident pg, post_title = title, post_slug = s,
                                    post_date = date, post_tags = tags,
                                    post_content = content\<rparr>]) w)))"

text \<open>\<open>response.next_cursor || undefined\<close>.\<close>

definition cursor_or_undefined :: "jsstring option \<Rightarrow> jsstring option" where
  "cursor_or_undefined c = (case c of None \<Rightarrow> None | Some s \<Rightarrow> if s = [] then None else Some s)"

text \<open>
  The loop \<open>while (hasMore)\<close>: one query for each pass, with the cursor of the pass and the
  filter of the run. The remote service may answer \<open>has_more\<close> for ever, so the loop need
  not end: not returning is the value \<open>None\<close>.
\<close>

partial_function (option) fetch_loop ::
  "jsstring option \<Rightarrow> jsstring option \<Rightarrow> BlogPost list \<Rightarrow> pull_world
     \<Rightarrow> ((error + BlogPost list) \<times> pull_world) option" where
  "fetch_loop flt startCursor posts w =
     (let w1 = w\<lparr>queries := queries w @ [\<lparr>start_cursor = startCursor, filter_after = flt\<rparr>]\<rparr>
      in case data_source w (queries w1) of
           Query_throws \<Rightarrow> Some (Inl QueryError, w1)
         | Answer response \<Rightarrow>
             (case process_pages (results response) posts w1 of
                (Inl e, w2) \<Rightarrow> Some (Inl e, w2)
              | (Inr posts', w2) \<Rightarrow>
                  if has_more response
                  then fetch_loop flt (cursor_or_undefined (next_cursor response)) posts' w2
                  else Some (Inr posts', w2)))"

declare fetch_loop.simps [code]

text \<open>
  The filter of fetchBlogPosts, \<open>lastSyncTime ? { ... after: lastSyncTime } : undefined\<close>:
  the result is the \<open>after\<close> of the filter, or nothing when there is no filter.
\<close>

definition build_filter :: "jsstring option \<Rightarrow> jsstring option" where
  "build_filter t = (case t of None \<Rightarrow> None | Some s \<Rightarrow> if s = [] then None else Some s)"

definition fetchBlogPosts ::
  "jsstring option \<Rightarrow> pull_world \<Rightarrow> ((error + BlogPost list) \<times> pull_world) option" where
  "fetchBlogPosts t w =
     fetch_loop (build_filter t) None []
       (print (case build_filter t of Some s \<Rightarrow> Incremental_sync s | None \<Rightarrow> Full_sync) w)"

subsection \<open>generateFrontmatter\<close>

text \<open>
  \<open>title.replace(/"/g, '\\"')\<close>: a backslash before every double quote; \<open>replace\<close> exists
  on a string only.
\<close>

definition escape_quotes :: "jsstring \<Rightarrow> jsstring" where
  "escape_quotes t = concat (map (\<lambda>c. if c = 34 then [92, 34] else [c]) t)"

text \<open>
  The line of the tags, under \<open>post.tags.length > 0\<close>: a list has a length and \<open>map\<close>; a
  string has a length and no \<open>map\<close>; a boolean has no length, and \<open>undefined > 0\<close> is false;
  null has no properties.
\<close>

fun tags_lines :: "jsvalue \<Rightarrow> error + jsstring list" where
  "tags_lines (StrList l) =
     Inr (if length l > 0
          then [js ''tags: ['' @ js_join (js '', '') (map (\<lambda>t. [39] @ t @ [39]) l) @ js '']'']
          else [])"
| "tags_lines (Str s) = (if length s > 0 then Inl TypeError else Inr [])"
| "tags_lines (Bool b) = Inr []"
| "tags_lines Null = Inl TypeError"

definition generateFrontmatter :: "BlogPost \<Rightarrow> error + jsstring" where
  "generateFrontmatter post =
     (case post_title post of
        Str t \<Rightarrow>
          (case tags_lines (post_tags post) of
             Inl e \<Rightarrow> Inl e
           | Inr tagLines \<Rightarrow>
               Inr (js_join [nl]
                 ([js ''---'',
                   js ''title: \"'' @ escape_quotes t @ js ''\"'',
                   js ''date: '' @ toString (post_date post),
                   js ''slug: '' @ toString (post_slug post)]
                  @ tagLines @ [js ''draft: false'', js ''---''])))
      | _ \<Rightarrow> Inl TypeError)"

subsection \<open>Dates, years and file names\<close>

text \<open>
  \<open>new Date(v).getTime()\<close> for the date of a post: a string is parsed, a list is first
  converted to a string, a boolean is converted to a number.
\<close>

fun time_of :: "pull_world \<Rightarrow> jsvalue \<Rightarrow> int option" where
  "time_of w (Str s) = date_time w s"
| "time_of w (StrList l) = date_time w (js_join (js '','') l)"
| "time_of w (Bool b) = Some (if b then 1 else 0)"
| "time_of w Null = Some 0"

text \<open>The decimal digits of a number, and \<open>String(n)\<close> of an integer.\<close>

fun show_nat :: "nat \<Rightarrow> jsstring" where
  "show_nat n = (if n < 10 then [48 + n] else show_nat (n div 10) @ [48 + n mod 10])"

declare show_nat.simps [simp del]

definition show_int :: "int \<Rightarrow> jsstring" where
  "show_int i = (if i < 0 then hyphen # show_nat (nat (- i)) else show_nat (nat i))"

definition getYearFromDate :: "pull_world \<Rightarrow> jsvalue \<Rightarrow> jsstring" where
  "getYearFromDate w dateStr =
     (case time_of w dateStr of None \<Rightarrow> js ''NaN'' | Some t \<Rightarrow> show_int (full_year w t))"

text \<open>
  The numbers of the source are doubles. The indices of file names are whole numbers that
  are not negative, and a double holds every such number below \<open>2^53\<close> exactly: there
  \<open>parseInt\<close> of a string of decimal digits is the number the digits denote, \<open>+\<close> is the
  sum, and \<open>String\<close> gives the decimal digits. From \<open>2^53\<close> on a double rounds, \<open>parseInt\<close>
  may drop digits after the twentieth and \<open>String\<close> prints the shortest digits that
  denote the same double: there the three operations are those of the runtime,
  \<open>big_parse\<close>, \<open>big_plus\<close> and \<open>big_string\<close>. A double that large is a whole number, and
  the digits of a file name (255 bytes at most) never reach infinity, so a natural number
  holds the value. Comparison of two such numbers is exact.
\<close>

definition decimal :: "jsstring \<Rightarrow> nat" where
  "decimal ds = foldl (\<lambda>a c. a * 10 + (c - 48)) 0 ds"

definition parseInt :: "pull_world \<Rightarrow> jsstring \<Rightarrow> nat" where
  "parseInt w ds = (if decimal ds < 9007199254740992 then decimal ds else big_parse w ds)"

definition js_plus :: "pull_world \<Rightarrow> nat \<Rightarrow> nat \<Rightarrow> nat" where
  "js_plus w a b = (if a + b < 9007199254740992 then a + b else big_plus w a b)"

definition number_string :: "pull_world \<Rightarrow> nat \<Rightarrow> jsstring" where
  "number_string w n = (if n < 9007199254740992 then show_nat n else big_string w n)"

text \<open>
  \<open>file.match(/^(\d+)-/)\<close> and \<open>parseInt(match[1], 10)\<close>: the number a file name starts
  with, when digits and a hyphen start it.
\<close>

definition file_index :: "pull_world \<Rightarrow> jsstring \<Rightarrow> nat option" where
  "file_index w f =
     (if takeWhile isDigit f \<noteq> [] \<and> startsWith (dropWhile isDigit f) [hyphen]
      then Some (parseInt w (takeWhile isDigit f)) else None)"

definition max_index :: "pull_world \<Rightarrow> jsstring list \<Rightarrow> nat" where
  "max_index w existingFiles =
     foldl (\<lambda>maxIndex f. case file_index w f of
                             Some i \<Rightarrow> if i > maxIndex then i else maxIndex
                           | None \<Rightarrow> maxIndex) 0 existingFiles"

definition padStart2 :: "jsstring \<Rightarrow> jsstring" where
  "padStart2 s = replicate (2 - length s) 48 @ s"

text \<open>
  \<open>String(maxIndex + newPostIndex + 1).padStart(2, "0")\<close>, and the name of a new file
  with that index.
\<close>

definition next_index :: "pull_world \<Rightarrow> nat \<Rightarrow> nat \<Rightarrow> nat" where
  "next_index w maxIndex newPostIndex = js_plus w (js_plus w maxIndex newPostIndex) 1"

definition new_filename :: "pull_world \<Rightarrow> nat \<Rightarrow> jsstring \<Rightarrow> jsstring" where
  "new_filename w n slug = padStart2 (number_string w n) @ [hyphen] @ slug @ js ''.md''"

subsection \<open>Grouping and sorting\<close>

text \<open>
  \<open>postsByYear\<close> is a \<open>Map\<close>: its entries are in the order in which the years were first
  met, and the posts of a year in the order of \<open>posts\<close>.
\<close>

fun add_to_year ::
  "jsstring \<Rightarrow> BlogPost \<Rightarrow> (jsstring \<times> BlogPost list) list \<Rightarrow> (jsstring \<times> BlogPost list) list" where
  "add_to_year year post [] = [(year, [post])]"
| "add_to_year year post ((y, ps) # rest) =
     (if y = year then (y, ps @ [post]) # rest else (y, ps) # add_to_year year post rest)"

definition group_by_year :: "pull_world \<Rightarrow> BlogPost list \<Rightarrow> (jsstring \<times> BlogPost list) list" where
  "group_by_year w posts =
     foldl (\<lambda>m post. add_to_year (getYearFromDate w (post_date post)) post m) [] posts"

text \<open>
  The comparator of the sort, \<open>new Date(a.date).getTime() - new Date(b.date).getTime()\<close>;
  with an invalid date the difference is NaN, which \<open>sort\<close> reads as 0.
  \<open>Array.prototype.sort\<close> is stable, so for dates that are all valid its result is that
  of a stable insertion sort; with an invalid date the comparator is not a consistent
  order and ECMAScript leaves the result to the implementation, of which the insertion
  sort is one.
\<close>

definition compare_dates :: "pull_world \<Rightarrow> BlogPost \<Rightarrow> BlogPost \<Rightarrow> int" where
  "compare_dates w a b =
     (case (time_of w (post_date a), time_of w (post_date b)) of
        (Some x, Some y) \<Rightarrow> x - y
      | _ \<Rightarrow> 0)"

fun insert_post :: "pull_world \<Rightarrow> BlogPost \<Rightarrow> BlogPost list \<Rightarrow> BlogPost list" where
  "insert_post w p [] = [p]"
| "insert_post w p (q # qs) =
     (if compare_dates w p q < 0 then p # q # qs else q # insert_post w p qs)"

definition sort_posts :: "pull_world \<Rightarrow> BlogPost list \<Rightarrow> BlogPost list" where
  "sort_posts w ps = foldl (\<lambda>acc p. insert_post w p acc) [] ps"

subsection \<open>syncPosts\<close>

text \<open>
  \<open>fs.writeFileSync(path.join(yearDir, filename), fileContent)\<close>. A name without a slash
  is the name of a file of the year directory: an existing file keeps its place in the
  directory and gets the new text, a new file is added. A name with a slash (a slug may
  hold one) is resolved by \<open>path.join\<close>, which removes \<open>..\<close> segments: the file may land
  in the year directory under another name, in another year directory or outside the
  content directory, or the write may throw because a directory is missing. The
  directories that decide this are not part of the state, so the outcome is that of
  \<open>slash_write\<close>: the year directories after the write, or nothing when it throws. The
  name ends in \<open>.md\<close>, so such a write never reaches the sync-state file. What a failed
  write leaves behind is not modelled.
\<close>

fun put_file :: "jsstring \<Rightarrow> jsstring \<Rightarrow> (jsstring \<times> jsstring) list \<Rightarrow> (jsstring \<times> jsstring) list" where
  "put_file name fileText [] = [(name, fileText)]"
| "put_file name fileText ((n, t) # rest) =
     (if n = name then (n, fileText) # rest else (n, t) # put_file name fileText rest)"

definition writeFile ::
  "jsstring \<Rightarrow> jsstring \<Rightarrow> jsstring \<Rightarrow> pull_world \<Rightarrow> (error + unit) \<times> pull_world" where
  "writeFile year filename fileContent w =
     (if 47 \<in> set filename then
        (case slash_write w year filename fileContent (yearDirs w) of
           None \<Rightarrow> (Inl IOError, w)
         | Some dirs \<Rightarrow> (Inr (), w\<lparr>yearDirs := dirs\<rparr>))
      else
        (case yearDirs w year of
           None \<Rightarrow> (Inl IOError, w)
         | Some files \<Rightarrow>
             if fs_fails w (Write year filename) then (Inl IOError, w)
             else (Inr (), w\<lparr>yearDirs := (yearDirs w)(year := Some (put_file filename fileContent files))\<rparr>)))"

text \<open>
  The loop over the sorted posts of a year. \<open>existingFiles\<close> and \<open>maxIndex\<close> were read
  before the loop; \<open>newPostIndex\<close> counts the new files of the loop (the posts of one
  array, so it stays far below \<open>2^53\<close> and \<open>newPostIndex++\<close> is exact).
\<close>

fun write_posts ::
  "jsstring \<Rightarrow> jsstring list \<Rightarrow> nat \<Rightarrow> nat \<Rightarrow> BlogPost list \<Rightarrow> pull_world
     \<Rightarrow> (error + unit) \<times> pull_world" where
  "write_posts year existingFiles maxIndex newPostIndex [] w = (Inr (), w)"
| "write_posts year existingFiles maxIndex newPostIndex (post # rest) w =
     (let existingSlugFile = find (\<lambda>f. js_includes f (toString (post_slug post))) existingFiles;
          filename = (case existingSlugFile of
                        Some f \<Rightarrow> f
                      | None \<Rightarrow> new_filename w (next_index w maxIndex newPostIndex)
                                  (toString (post_slug post)));
          newPostIndex' = (case existingSlugFile of Some f \<Rightarrow> newPostIndex | None \<Rightarrow> newPostIndex + 1);
          w1 = (case existingSlugFile of Some f \<Rightarrow> print (Updating_existing f) w | None \<Rightarrow> w)
      in case generateFrontmatter post of
           Inl e \<Rightarrow> (Inl e, w1)
         | Inr frontmatter \<Rightarrow>
             (case writeFile year filename (frontmatter @ [nl, nl] @ post_content post) w1 of
                (Inl e, w2) \<Rightarrow> (Inl e, w2)
              | (Inr _, w2) \<Rightarrow>
                  write_posts year existingFiles maxIndex newPostIndex' rest
                    (print (Written year filename) w2)))"

text \<open>One pass of the loop over the years.\<close>

definition sync_year :: "jsstring \<Rightarrow> BlogPost list \<Rightarrow> pull_world \<Rightarrow> (error + unit) \<times> pull_world" where
  "sync_year year yearPosts w =
     (if yearDirs w year = None \<and> fs_fails w (Mkdir year) then (Inl IOError, w)
      else
        let w1 = (if yearDirs w year = None then w\<lparr>yearDirs := (yearDirs w)(year := Some [])\<rparr> else w)
        in case yearDirs w1 year of
             Some files \<Rightarrow>
               if fs_fails w1 (Readdir year) then (Inl IOError, w1)
               else
                 let existingFiles = filter (\<lambda>f. endsWith f (js ''.md'')) (map fst files)
                 in write_posts year existingFiles (max_index w1 existingFiles) 0
                      (sort_posts w1 yearPosts) w1
           | None \<Rightarrow> write_posts year [] (max_index w1 []) 0 (sort_posts w1 yearPosts) w1)"

fun sync_years :: "(jsstring \<times> BlogPost list) list \<Rightarrow> pull_world \<Rightarrow> (error + unit) \<times> pull_world" where
  "sync_years [] w = (Inr (), w)"
| "sync_years ((year, yearPosts) # rest) w =
     (case sync_year year yearPosts w of
        (Inl e, w') \<Rightarrow> (Inl e, w')
      | (Inr _, w') \<Rightarrow> sync_years rest w')"

definition syncPosts :: "pull_world \<Rightarrow> ((error + unit) \<times> pull_world) option" where
  "syncPosts w =
     (case loadSyncState w of
        (syncState, w1) \<Rightarrow>
          let currentSyncTime = now w1
          in case fetchBlogPosts (map_option lastSyncTime syncState) (print Fetching_posts w1) of
               None \<Rightarrow> None
             | Some (Inl e, w2) \<Rightarrow> Some (Inl e, w2)
             | Some (Inr posts, w2) \<Rightarrow>
                 if length posts = 0 then
                   Some (saveSyncState \<lparr>lastSyncTime = currentSyncTime\<rparr> (print No_new_posts w2))
                 else
                   (case sync_years (group_by_year w2 posts) (print (Found_posts (length posts)) w2) of
                      (Inl e, w3) \<Rightarrow> Some (Inl e, w3)
                    | (Inr _, w3) \<Rightarrow>
                        (case saveSyncState \<lparr>lastSyncTime = currentSyncTime\<rparr> w3 of
                           (Inl e, w4) \<Rightarrow> Some (Inl e, w4)
                         | (Inr _, w4) \<Rightarrow> Some (Inr (), print (Sync_completed currentSyncTime) w4))))"

subsection \<open>What a fetch relates\<close>

text \<open>
  The state before and the state after a fetch with the filter \<open>flt\<close>: only the queries
  and the printed lines differ, at least one query was added, and every added query
  carries the filter.
\<close>

definition fetch_inv :: "jsstring option \<Rightarrow> pull_world \<Rightarrow> pull_world \<Rightarrow> bool" where
  "fetch_inv flt w w' =
     (w' = w\<lparr>queries := queries w', console := console w'\<rparr> \<and>
      (\<exists>qs. queries w' = queries w @ qs \<and> qs \<noteq> [] \<and> (\<forall>q\<in>set qs. filter_after q = flt)))"

subsection \<open>The files a run reports\<close>


section \<open>Push script: the pipeline\<close>

subsection \<open>getAllMarkdownFiles\<close>

text \<open>
  An entry of a directory as \<open>readdirSync\<close> with \<open>withFileTypes\<close> shows it: a file, a
  directory with its entries, or a directory whose listing throws.
\<close>

datatype dirent =
    File jsstring
  | Directory jsstring "dirent list"
  | Unlistable jsstring

text \<open>\<open>path.join(dir, entry.name)\<close>; 47 is the slash.\<close>

definition path_join :: "jsstring \<Rightarrow> jsstring \<Rightarrow> jsstring" where
  "path_join dir name = dir @ [47] @ name"

fun walk_entry :: "jsstring \<Rightarrow> dirent \<Rightarrow> error + jsstring list"
  and walk_entries :: "jsstring \<Rightarrow> dirent list \<Rightarrow> error + jsstring list" where
  "walk_entry dir (File name) =
     Inr (if endsWith name (js ''.md'') then [path_join dir name] else [])"
| "walk_entry dir (Directory name entries) = walk_entries (path_join dir name) entries"
| "walk_entry dir (Unlistable name) = Inl IOError"
| "walk_entries dir [] = Inr []"
| "walk_entries dir (e # es) =
     (case walk_entry dir e of
        Inl x \<Rightarrow> Inl x
      | Inr files \<Rightarrow>
          (case walk_entries dir es of Inl x \<Rightarrow> Inl x | Inr others \<Rightarrow> Inr (files @ others)))"

text \<open>
  getAllMarkdownFiles of a directory, given its entries, or nothing when its listing
  throws.
\<close>

definition getAllMarkdownFiles :: "jsstring \<Rightarrow> dirent list option \<Rightarrow> error + jsstring list" where
  "getAllMarkdownFiles dir entries =
     (case entries of None \<Rightarrow> Inl IOError | Some es \<Rightarrow> walk_entries dir es)"

subsection \<open>migrateToNotion\<close>

text \<open>
  The two counts the run prints at its end. The loop over the files: whatever is thrown
  inside the \<open>try\<close> is caught and counted, and the loop goes on; a file without a title or
  a date is counted as an error too. The pause between two pages is not modelled.
\<close>

record report =
  successCount :: nat
  errorCount :: nat

fun migrate_files :: "jsstring list \<Rightarrow> report \<Rightarrow> push_world \<Rightarrow> report \<times> push_world" where
  "migrate_files [] r w = (r, w)"
| "migrate_files (filePath # rest) r w =
     (case disk w filePath of
        None \<Rightarrow> migrate_files rest (r\<lparr>errorCount := errorCount r + 1\<rparr>) w
      | Some fileContent \<Rightarrow>
          (case parseFrontmatter fileContent of
             Inl e \<Rightarrow> migrate_files rest (r\<lparr>errorCount := errorCount r + 1\<rparr>) w
           | Inr (fm, content) \<Rightarrow>
               if \<not> is_truthy (fm (js ''title'')) \<or> \<not> is_truthy (fm (js ''date'')) then
                 migrate_files rest (r\<lparr>errorCount := errorCount r + 1\<rparr>) w
               else
                 (case createNotionPage fm content w of
                    (Inl e, w') \<Rightarrow> migrate_files rest (r\<lparr>errorCount := errorCount r + 1\<rparr>) w'
                  | (Inr pageId, w') \<Rightarrow>
                      migrate_files rest (r\<lparr>successCount := successCount r + 1\<rparr>) w')))"

definition migrateToNotion ::
  "jsstring \<Rightarrow> dirent list option \<Rightarrow> push_world \<Rightarrow> (error + report) \<times> push_world" where
  "migrateToNotion contentDir entries w =
     (case getAllMarkdownFiles contentDir entries of
        Inl e \<Rightarrow> (Inl e, w)
      | Inr markdownFiles \<Rightarrow>
          (case migrate_files markdownFiles \<lparr>successCount = 0, errorCount = 0\<rparr> w of
             (r, w') \<Rightarrow> (Inr r, w')))"

section \<open>A world for the examples\<close>

text \<open>
  The runtime of the examples knows the dates the examples use (their time values are
  those of midnight UTC), and takes the year of a time value in UTC. In the example world
  there is no sync-state file and no year directory, nothing fails but the write of a
  name with a slash, the data source has no page, and a query takes seven seconds. The
  examples use no number that reaches \<open>2^53\<close>.
\<close>

definition example_dates :: "jsstring \<Rightarrow> int option" where
  "example_dates s =
     (if s = js ''2024-01-10'' then Some 1704844800000
      else if s = js ''2024-02-20'' then Some 1708387200000
      else if s = js ''2024-03-15'' then Some 1710460800000
      else None)"

definition no_pages :: query_response where
  "no_pages = \<lparr>results = [], has_more = False, next_cursor = None\<rparr>"

definition example_world :: pull_world where
  "example_world =
     \<lparr>clock = (\<lambda>n. if n = 0 then js ''2024-06-01T10:00:00.000Z''
                    else js ''2024-06-01T10:00:07.000Z''),
      syncStateFile = None,
      yearDirs = (\<lambda>_. None),
      queries = [],
      data_source = (\<lambda>_. Answer no_pages),
      page_markdown = (\<lambda>_. Some (js ''Body'')),
      fs_fails = (\<lambda>_. False),
      damaged = None,
      console = [],
      lowerCase = toLowerCase,
      date_time = example_dates,
      full_year = (\<lambda>t. 1970 + t div 31556952000),
      slash_write = (\<lambda>_ _ _ _. None),
      big_parse = decimal,
      big_plus = (\<lambda>a b. a + b),
      big_string = show_nat\<rparr>"

text \<open>A page of the data source with a title and a published date, and one without a title.\<close>

definition example_page :: "jsstring \<Rightarrow> jsstring \<Rightarrow> jsstring \<Rightarrow> page" where
  "example_page i t d =
     \<lparr>ident = i, has_properties = True,
      prop_map = [js ''Name'' \<mapsto> Title_prop [t], js ''Published'' \<mapsto> Date_prop (Some d)]\<rparr>"

definition untitled_page :: "jsstring \<Rightarrow> jsstring \<Rightarrow> page" where
  "untitled_page i d =
     \<lparr>ident = i, has_properties = True,
      prop_map = [js ''Name'' \<mapsto> Title_prop [], js ''Published'' \<mapsto> Date_prop (Some d)]\<rparr>"


section \<open>Properties of generateSlug\<close>

lemma hyphen_not_slug: "\<not> is_slug_char hyphen"
  by (simp add: is_slug_char_def hyphen_def)

lemma replace_runs_alphabet: "slug_alphabet (replace_runs s)"
  by (induction s rule: replace_runs.induct) (simp_all add: slug_alphabet_def)

lemma replace_runs_head:
  assumes "replace_runs (dropWhile (\<lambda>d. \<not> is_slug_char d) cs) = a # rest"
  shows "is_slug_char a"
proof -
  define d where "d = dropWhile (\<lambda>d. \<not> is_slug_char d) cs"
  from assms have h: "replace_runs d = a # rest" by (simp add: d_def)
  then obtain x xs where c: "d = x # xs" by (cases d) auto
  then have "is_slug_char x"
    using hd_dropWhile [of "\<lambda>d. \<not> is_slug_char d" cs] by (simp add: d_def)
  with h c show ?thesis by simp
qed

lemma no_double_Cons:
  "no_double_hyphen r \<Longrightarrow> (c \<noteq> hyphen \<or> (case r of [] \<Rightarrow> True | a # _ \<Rightarrow> a \<noteq> hyphen))
     \<Longrightarrow> no_double_hyphen (c # r)"
  by (cases r) auto

lemma replace_runs_no_double: "no_double_hyphen (replace_runs s)"
proof (induction s rule: replace_runs.induct)
  case 1
  show ?case by simp
next
  case (2 c cs)
  show ?case
  proof (cases "is_slug_char c")
    case True
    then have "c \<noteq> hyphen" using hyphen_not_slug by auto
    moreover from True 2 have "no_double_hyphen (replace_runs cs)" by simp
    ultimately have "no_double_hyphen (c # replace_runs cs)" by (simp add: no_double_Cons)
    with True show ?thesis by simp
  next
    case False
    define r where "r = replace_runs (dropWhile (\<lambda>d. \<not> is_slug_char d) cs)"
    from False 2 have nd: "no_double_hyphen r" by (simp add: r_def)
    have "case r of [] \<Rightarrow> True | a # _ \<Rightarrow> a \<noteq> hyphen"
    proof (cases r)
      case Nil
      then show ?thesis by simp
    next
      case (Cons a rest)
      then have "is_slug_char a" using replace_runs_head [of cs a rest] by (simp add: r_def)
      then have "a \<noteq> hyphen" using hyphen_not_slug by auto
      with Cons show ?thesis by simp
    qed
    with nd have "no_double_hyphen (hyphen # r)" by (simp add: no_double_Cons)
    with False show ?thesis by (simp add: r_def)
  qed
qed

lemma no_double_tl: "no_double_hyphen (c # cs) \<Longrightarrow> no_double_hyphen cs"
  by (cases cs) simp_all

lemma no_double_dropWhile: "no_double_hyphen s \<Longrightarrow> no_double_hyphen (dropWhile P s)"
  by (induction s) (auto dest: no_double_tl)

lemma no_double_rev: "no_double_hyphen (rev s) = no_double_hyphen s"
proof (induction s rule: no_double_hyphen.induct)
  case (1 a b cs)
  have app: "\<And>xs y z. no_double_hyphen (xs @ [y, z]) = (no_double_hyphen (xs @ [y]) \<and> \<not> (y = hyphen \<and> z = hyphen))"
  proof -
    fix xs :: jsstring and y z
    show "no_double_hyphen (xs @ [y, z]) = (no_double_hyphen (xs @ [y]) \<and> \<not> (y = hyphen \<and> z = hyphen))"
      by (induction xs rule: no_double_hyphen.induct) auto
  qed
  from 1 app [of "rev cs" b a] show ?case by auto
qed simp_all

lemma trim_no_double: "no_double_hyphen s \<Longrightarrow> no_double_hyphen (trim_hyphens s)"
  by (simp add: trim_hyphens_def no_double_rev no_double_dropWhile)

lemma alphabet_dropWhile: "slug_alphabet s \<Longrightarrow> slug_alphabet (dropWhile P s)"
  by (induction s) (auto simp: slug_alphabet_def)

lemma slug_alphabet_rev: "slug_alphabet (rev t) = slug_alphabet t"
  by (simp add: slug_alphabet_def list_all_iff)

lemma trim_alphabet: "slug_alphabet s \<Longrightarrow> slug_alphabet (trim_hyphens s)"
  by (simp add: trim_hyphens_def slug_alphabet_rev alphabet_dropWhile)

lemma trim_no_edge: "no_edge_hyphen (trim_hyphens s)"
proof -
  define t where "t = dropWhile (\<lambda>c. c = hyphen) s"
  define u where "u = dropWhile (\<lambda>c. c = hyphen) (rev t)"
  have tr: "trim_hyphens s = rev u" by (simp add: trim_hyphens_def t_def u_def)
  show ?thesis
  proof (cases "u = []")
    case True
    with tr show ?thesis by (simp add: no_edge_hyphen_def)
  next
    case False
    have "hd u \<noteq> hyphen"
      using False hd_dropWhile [of "\<lambda>c. c = hyphen" "rev t"] by (simp add: u_def)
    then have l: "last (rev u) \<noteq> hyphen" using False by (simp add: last_rev)
    have "\<exists>p. rev t = p @ u" unfolding u_def
      by (metis takeWhile_dropWhile_id)
    then obtain p where "rev t = p @ u" ..
    then have tt: "t = rev u @ rev p" by (metis rev_append rev_rev_ident)
    have "t \<noteq> []" using tt False by simp
    then have "hd t \<noteq> hyphen"
      using hd_dropWhile [of "\<lambda>c. c = hyphen" s] by (simp add: t_def)
    then have "hd (rev u) \<noteq> hyphen" using tt False by simp
    with l tr False show ?thesis
      by (cases "rev u") (simp_all add: no_edge_hyphen_def)
  qed
qed

lemma replace_runs_fixed:
  "slug_alphabet s \<Longrightarrow> no_double_hyphen s \<Longrightarrow> replace_runs s = s"
proof (induction s rule: replace_runs.induct)
  case 1
  show ?case by simp
next
  case (2 c cs)
  show ?case
  proof (cases "is_slug_char c")
    case True
    with 2 show ?thesis by (auto simp: slug_alphabet_def dest: no_double_tl)
  next
    case False
    with "2.prems" have c: "c = hyphen" by (simp add: slug_alphabet_def)
    have d: "dropWhile (\<lambda>d. \<not> is_slug_char d) cs = cs"
    proof (cases cs)
      case Nil
      then show ?thesis by simp
    next
      case (Cons x xs)
      with "2.prems" c have "x \<noteq> hyphen" by simp
      with "2.prems" Cons have "is_slug_char x" by (simp add: slug_alphabet_def)
      with Cons show ?thesis by simp
    qed
    from "2.prems" have "slug_alphabet cs" "no_double_hyphen cs"
      by (auto simp: slug_alphabet_def dest: no_double_tl)
    with "2.IH"(2) False d c show ?thesis by simp
  qed
qed

lemma trim_fixed:
  assumes "no_edge_hyphen s"
  shows "trim_hyphens s = s"
proof (cases s)
  case Nil
  then show ?thesis by (simp add: trim_hyphens_def)
next
  case (Cons c cs)
  with assms have a: "c \<noteq> hyphen" and b: "last s \<noteq> hyphen"
    by (simp_all add: no_edge_hyphen_def)
  from Cons a have front: "dropWhile (\<lambda>c. c = hyphen) s = s" by simp
  from Cons obtain y ys where r: "rev s = y # ys" by (cases "rev s") auto
  from Cons have "hd (rev s) = last s" by (simp add: hd_rev)
  with r b have "y \<noteq> hyphen" by simp
  with r have "dropWhile (\<lambda>c. c = hyphen) (rev s) = rev s" by simp
  with front show ?thesis by (simp add: trim_hyphens_def)
qed

lemma toLowerCase_fixed: "slug_alphabet s \<Longrightarrow> toLowerCase s = s"
  by (induction s) (auto simp: slug_alphabet_def toLowerCase_def lower_unit_def is_slug_char_def hyphen_def)

lemma generateSlug_alphabet: "slug_alphabet (generateSlug lower title)"
  unfolding generateSlug_def by (rule trim_alphabet [OF replace_runs_alphabet])

lemma generateSlug_no_double: "no_double_hyphen (generateSlug lower title)"
  unfolding generateSlug_def by (rule trim_no_double [OF replace_runs_no_double])

lemma generateSlug_no_edge: "no_edge_hyphen (generateSlug lower title)"
  unfolding generateSlug_def by (rule trim_no_edge)

text \<open>
  Claim C7. For every title, and whatever the runtime's case mapping does, generateSlug
  returns a string of lower-case Latin letters, digits, code units U+4E00 to U+9FA5 and
  hyphens, with no two hyphens in a row and no hyphen first or last. The title of the
  example (two CJK characters, then \<open>, World!\<close>) yields the two characters, a hyphen
  and \<open>world\<close>.
\<close>

theorem generateSlug_shape:
  "slug_alphabet (generateSlug lower title) \<and>
   no_double_hyphen (generateSlug lower title) \<and>
   no_edge_hyphen (generateSlug lower title) \<and>
   generateSlug toLowerCase [20320, 22909, 44, 32, 87, 111, 114, 108, 100, 33]
     = [20320, 22909, 45, 119, 111, 114, 108, 100]"
proof (intro conjI)
  show "generateSlug toLowerCase [20320, 22909, 44, 32, 87, 111, 114, 108, 100, 33]
     = [20320, 22909, 45, 119, 111, 114, 108, 100]"
    by (simp add: generateSlug_def toLowerCase_def lower_unit_def trim_hyphens_def
        is_slug_char_def hyphen_def)
qed (rule generateSlug_alphabet generateSlug_no_double generateSlug_no_edge)+

text \<open>
  Claim C10. generateSlug is idempotent: an output of generateSlug is a fixed point of
  generateSlug. The case mapping enters only through the fact that it leaves lower-case
  Latin letters, digits, the CJK range and the hyphen unchanged.
\<close>

theorem generateSlug_idempotent:
  assumes "\<And>s. slug_alphabet s \<Longrightarrow> lower s = s"
  shows "generateSlug lower (generateSlug lower t) = generateSlug lower t"
proof -
  define s where "s = generateSlug lower t"
  have a: "slug_alphabet s" and d: "no_double_hyphen s" and e: "no_edge_hyphen s"
    unfolding s_def
    by (rule generateSlug_alphabet generateSlug_no_double generateSlug_no_edge)+
  from a assms have "lower s = s" by simp
  then have "generateSlug lower s = trim_hyphens (replace_runs s)"
    by (simp add: generateSlug_def)
  also have "\<dots> = s" using a d e by (simp add: replace_runs_fixed trim_fixed)
  finally show ?thesis by (simp add: s_def)
qed

theorem generateSlug_idempotent_witness:
  "generateSlug toLowerCase (generateSlug toLowerCase (js ''Hello, World!''))
     = generateSlug toLowerCase (js ''Hello, World!'') \<and>
   generateSlug toLowerCase (js ''Hello, World!'') = js ''hello-world''"
proof (rule conjI)
  show "generateSlug toLowerCase (generateSlug toLowerCase (js ''Hello, World!''))
     = generateSlug toLowerCase (js ''Hello, World!'')"
    by (rule generateSlug_idempotent [OF toLowerCase_fixed])
  show "generateSlug toLowerCase (js ''Hello, World!'') = js ''hello-world''"
    by (simp add: generateSlug_def toLowerCase_def lower_unit_def trim_hyphens_def
        is_slug_char_def hyphen_def js_def)
qed

section \<open>Strings: split and join\<close>

lemma js_split_plain: "d \<notin> set l \<Longrightarrow> js_split d l = [l]"
  by (induction l) auto

lemma js_split_append: "d \<notin> set l \<Longrightarrow> js_split d (l @ d # r) = l # js_split d r"
  by (induction l) auto

lemma js_split_join:
  "lines \<noteq> [] \<Longrightarrow> \<forall>l\<in>set lines. d \<notin> set l \<Longrightarrow> js_split d (js_join [d] lines) = lines"
proof (induction "[d]" lines rule: js_join.induct)
  case 1
  then show ?case by simp
next
  case (2 x)
  then show ?case by (simp add: js_split_plain)
next
  case (3 x y ys)
  then show ?case by (simp add: js_split_append)
qed

lemma js_trim_nonempty: "\<not> isWhiteSpace c \<Longrightarrow> js_trim (c # s) \<noteq> []"
  by (auto simp: js_trim_def dropWhile_eq_Nil_conv)

section \<open>Properties of markdownToNotionBlocks\<close>

lemma fence_line:
  "js_trim (fence @ tag) \<noteq> []"
  "\<not> startsWith (fence @ tag) (js ''### '')"
  "\<not> startsWith (fence @ tag) (js ''## '')"
  "\<not> startsWith (fence @ tag) (js ''# '')"
  "startsWith (fence @ tag) fence"
  by (simp_all add: fence_def js_def startsWith_def js_trim_nonempty isWhiteSpace_def)

lemma scan_fence:
  "scan_lines ((fence @ tag) # rest) =
     Code (js_join [nl] (takeWhile (\<lambda>l. \<not> startsWith l fence) rest)) (code_language (fence @ tag))
       # scan_lines (drop 1 (dropWhile (\<lambda>l. \<not> startsWith l fence) rest))"
  by (simp add: fence_line)

lemma code_language_tag:
  "code_language (fence @ tag) = (if js_trim tag = [] then js ''plain text'' else js_trim tag)"
  by (simp add: code_language_def fence_def js_def)

text \<open>
  Claim C6. With the cursor on an opening fence (three backquotes and a tag), the scan
  produces one code block: its text is the lines up to the next line that starts with
  three backquotes, joined by newlines, and its language is the trimmed tag (\<open>plain text\<close>
  when the tag is blank); the scan goes on after the closing line. When no later line
  starts with three backquotes, the code block holds all the remaining lines and the
  scan ends; the scan is a total function, so nothing is raised. The fenced block of the
  example, with the tag \<open>js\<close> and the one line \<open>code\<close>, gives one code block with the
  language \<open>js\<close> and the text \<open>code\<close>.
\<close>

theorem fenced_code_block:
  assumes "\<forall>l\<in>set body. \<not> startsWith l fence" and "startsWith closing fence"
  shows "scan_lines ((fence @ tag) # body @ closing # rest)
           = Code (js_join [nl] body) (code_language (fence @ tag)) # scan_lines rest \<and>
         scan_lines ((fence @ tag) # body)
           = [Code (js_join [nl] body) (code_language (fence @ tag))] \<and>
         code_language (fence @ tag)
           = (if js_trim tag = [] then js ''plain text'' else js_trim tag) \<and>
         markdownToNotionBlocks (js ''```js'' @ [nl] @ js ''code'' @ [nl] @ js ''```'')
           = [Code (js ''code'') (js ''js'')]"
proof (intro conjI)
  from assms have t: "takeWhile (\<lambda>l. \<not> startsWith l fence) (body @ closing # rest) = body"
    and d: "dropWhile (\<lambda>l. \<not> startsWith l fence) (body @ closing # rest) = closing # rest"
    by simp_all
  show "scan_lines ((fence @ tag) # body @ closing # rest)
           = Code (js_join [nl] body) (code_language (fence @ tag)) # scan_lines rest"
    by (simp only: scan_fence t d) simp
  from assms have t: "takeWhile (\<lambda>l. \<not> startsWith l fence) body = body"
    and d: "dropWhile (\<lambda>l. \<not> startsWith l fence) body = []"
    by simp_all
  show "scan_lines ((fence @ tag) # body) = [Code (js_join [nl] body) (code_language (fence @ tag))]"
    by (simp only: scan_fence t d) simp
  show "code_language (fence @ tag) = (if js_trim tag = [] then js ''plain text'' else js_trim tag)"
    by (rule code_language_tag)
  show "markdownToNotionBlocks (js ''```js'' @ [nl] @ js ''code'' @ [nl] @ js ''```'')
           = [Code (js ''code'') (js ''js'')]"
    by (simp add: markdownToNotionBlocks_def js_def nl_def fence_def startsWith_def js_trim_def
        isWhiteSpace_def code_language_def)
qed

theorem fenced_code_block_witness:
  "scan_lines ((fence @ js ''js'') # [js ''let x'', js ''x++''] @ fence # [js ''after''])
     = Code (js_join [nl] [js ''let x'', js ''x++'']) (code_language (fence @ js ''js''))
         # scan_lines [js ''after''] \<and>
   scan_lines ((fence @ js ''js'') # [js ''let x'', js ''x++''])
     = [Code (js_join [nl] [js ''let x'', js ''x++'']) (code_language (fence @ js ''js''))] \<and>
   code_language (fence @ js ''js'') = js ''js'' \<and>
   scan_lines [js ''after''] = [Paragraph (js ''after'')]"
proof -
  have h1: "\<forall>l\<in>set [js ''let x'', js ''x++'']. \<not> startsWith l fence"
    by (simp add: startsWith_def fence_def js_def)
  have h2: "startsWith fence fence"
    by (simp add: startsWith_def)
  note th = fenced_code_block [OF h1 h2, of "js ''js''" "[js ''after'']"]
  have l: "code_language (fence @ js ''js'') = js ''js''"
    by (simp add: code_language_def fence_def js_def js_trim_def isWhiteSpace_def)
  have a: "scan_lines [js ''after''] = [Paragraph (js ''after'')]"
    by (simp add: js_def startsWith_def js_trim_def isWhiteSpace_def fence_def
        numberedMatch_def isDigit_def)
  from th [THEN conjunct1] th [THEN conjunct2, THEN conjunct1] l a show ?thesis
    by (intro conjI)
qed

section \<open>Properties of createNotionPage\<close>

lemma notionRequest_sent:
  "notionRequest ep m b w = (r, w') \<Longrightarrow>
   sent w' = sent w @ [\<lparr>endpoint = ep, req_method = m, req_body = b\<rparr>]"
  by (auto simp: notionRequest_def Let_def split: response.splits)

lemma batch_count: "i < n \<Longrightarrow> (n - i + 99) div 100 = Suc ((n - (i + 100) + 99) div (100::nat))"
  by (cases "i + 100 \<le> n") (auto simp: div_eq_0_iff)

lemma map_upt_shift: "map f [0..<Suc n] = f 0 # map (\<lambda>k. f (Suc k)) [0..<n]"
  by (simp del: upt_Suc add: upt_conv_Cons map_Suc_upt [symmetric] del: map_Suc_upt)

lemma append_chunks_sent:
  "append_chunks p r i w = (Inr u, w') \<Longrightarrow>
   sent w' = sent w @ map (\<lambda>k. children_request p (take 100 (drop (i + k * 100) r)))
                          [0..<(length r - i + 99) div 100]"
proof (induction p r i w rule: append_chunks.induct)
  case (1 p r i w)
  show ?case
  proof (cases "i < length r")
    case False
    with "1.prems" show ?thesis by (simp add: append_chunks.simps)
  next
    case True
    obtain x w1 where nr: "notionRequest (children_endpoint p) PATCH
                (Children_body (take chunkSize (drop i r))) w = (x, w1)" by fastforce
    with True "1.prems" obtain y where x: "x = Inr y"
      by (cases x) (auto simp: append_chunks.simps)
    with True "1.prems" nr have rec: "append_chunks p r (i + chunkSize) w1 = (Inr u, w')"
      by (simp add: append_chunks.simps)
    from "1.IH" [OF True nr [symmetric] _ rec] x
    have s: "sent w' = sent w1 @ map (\<lambda>k. children_request p (take 100 (drop (i + chunkSize + k * 100) r)))
                          [0..<(length r - (i + chunkSize) + 99) div 100]" by simp
    from notionRequest_sent [OF nr]
    have s1: "sent w1 = sent w @ [children_request p (take 100 (drop i r))]"
      by (simp add: children_request_def chunkSize_def)
    show ?thesis
      unfolding batch_count [OF True] map_upt_shift s s1
      by (simp add: chunkSize_def add.assoc add.commute)
  qed
qed

lemma batches_concat:
  "concat (map (\<lambda>k. take c (drop (k * c) xs)) [0..<n]) = take (n * c) xs"
proof (induction n)
  case 0
  show ?case by simp
next
  case (Suc n)
  have "take (n * c) xs @ take c (drop (n * c) xs) = take (n * c + c) xs"
    by (simp add: take_add)
  with Suc show ?case by (simp add: add.commute)
qed

lemma createNotionPage_sent:
  assumes "createNotionPage fm content w = (Inr page_id, w')"
    and "build_properties fm = Inr props"
  shows "sent w' = sent w @ page_request props (take 100 (markdownToNotionBlocks content)) #
           map (\<lambda>k. children_request page_id
                  (take 100 (drop (k * 100) (drop 100 (markdownToNotionBlocks content)))))
             [0..<(length (drop 100 (markdownToNotionBlocks content)) + 99) div 100]"
proof -
  define blocks where "blocks = markdownToNotionBlocks content"
  obtain x w1 where nr: "notionRequest (js ''/pages'') POST (Page_body props (take 100 blocks)) w = (x, w1)"
    by fastforce
  with assms obtain i where x: "x = Inr i"
    by (cases x) (auto simp: createNotionPage_def blocks_def Let_def)
  obtain y w2 where ac: "append_chunks i (drop 100 blocks) 0 w1 = (y, w2)" by fastforce
  with assms nr x obtain u where y: "y = Inr u"
    by (cases y) (auto simp: createNotionPage_def blocks_def Let_def)
  from assms nr x ac y have e: "i = page_id" "w2 = w'"
    by (simp_all add: createNotionPage_def blocks_def Let_def)
  from notionRequest_sent [OF nr] have "sent w1 = sent w @ [page_request props (take 100 blocks)]"
    by (simp add: page_request_def)
  with append_chunks_sent [OF ac [unfolded y]] e show ?thesis
    by (simp add: blocks_def)
qed

text \<open>
  Claim C1. When createNotionPage returns, the requests it has sent are, in this order:
  the creation of the page, with the first 100 of the converted blocks (all of them when
  there are fewer: \<open>min n 100\<close> blocks), and one append request for each following
  batch of 100 blocks, the last batch holding what is left; the batches, one after the
  other, are the blocks in their original order. For 250 blocks these are the creation
  with 100 blocks and two append requests with 100 and 50 blocks.
\<close>

theorem createNotionPage_chunks:
  assumes "createNotionPage fm content w = (Inr page_id, w')"
    and "build_properties fm = Inr props"
    and "blocks = markdownToNotionBlocks content"
  shows "sent w' = sent w @ page_request props (take 100 blocks) #
           map (\<lambda>k. children_request page_id (take 100 (drop (100 + k * 100) blocks)))
             [0..<(length blocks - 100 + 99) div 100] \<and>
         length (take 100 blocks) = min (length blocks) 100 \<and>
         take 100 blocks @
           concat (map (\<lambda>k. take 100 (drop (100 + k * 100) blocks))
                     [0..<(length blocks - 100 + 99) div 100]) = blocks \<and>
         (length blocks = 250 \<longrightarrow>
            sent w' = sent w @ [page_request props (take 100 blocks),
                                children_request page_id (take 100 (drop 100 blocks)),
                                children_request page_id (drop 200 blocks)] \<and>
            length (take 100 blocks) = 100 \<and>
            length (take 100 (drop 100 blocks)) = 100 \<and>
            length (drop 200 blocks) = 50)"
proof (intro conjI impI)
  have sh: "\<And>k. drop (100 + k * 100) blocks = drop (k * 100) (drop 100 blocks)"
    by (simp add: add.commute)
  show s: "sent w' = sent w @ page_request props (take 100 blocks) #
           map (\<lambda>k. children_request page_id (take 100 (drop (100 + k * 100) blocks)))
             [0..<(length blocks - 100 + 99) div 100]"
    using createNotionPage_sent [OF assms(1,2)] by (simp add: assms(3) add.commute)
  show "length (take 100 blocks) = min (length blocks) 100" by simp
  have "concat (map (\<lambda>k. take 100 (drop (100 + k * 100) blocks))
                     [0..<(length blocks - 100 + 99) div 100])
          = take ((length blocks - 100 + 99) div 100 * 100) (drop 100 blocks)"
    unfolding sh by (rule batches_concat)
  also have "\<dots> = drop 100 blocks"
  proof (rule take_all)
    have "\<And>n::nat. n \<le> (n + 99) div 100 * 100" by presburger
    then show "length (drop 100 blocks) \<le> (length blocks - 100 + 99) div 100 * 100" by simp
  qed
  finally show "take 100 blocks @
           concat (map (\<lambda>k. take 100 (drop (100 + k * 100) blocks))
                     [0..<(length blocks - 100 + 99) div 100]) = blocks"
    by simp
  assume l: "length blocks = 250"
  have u: "[0..<2] = [0, Suc 0]" by (simp add: upt_conv_Cons)
  from s l u show "sent w' = sent w @ [page_request props (take 100 blocks),
                                children_request page_id (take 100 (drop 100 blocks)),
                                children_request page_id (drop 200 blocks)]"
    by simp
  from l show "length (take 100 blocks) = 100" "length (take 100 (drop 100 blocks)) = 100"
    "length (drop 200 blocks) = 50" by simp_all
qed


lemma scan_paragraphs: "scan_lines (replicate n (js ''x'')) = replicate n (Paragraph (js ''x''))"
  by (induction n)
    (simp_all add: js_def startsWith_def js_trim_def isWhiteSpace_def fence_def
      numberedMatch_def isDigit_def)

theorem createNotionPage_chunks_witness:
  "createNotionPage
     (initial_frontmatter(js ''title'' \<mapsto> Str (js ''T''), js ''date'' \<mapsto> Str (js ''2024-05-01'')))
     (js_join [nl] (replicate 250 (js ''x'')))
     \<lparr>sent = [], service = (\<lambda>_. Ok (Some (js ''p1''))), disk = (\<lambda>_. None)\<rparr>
   = (Inr (Some (js ''p1'')),
      \<lparr>sent = [page_request
                  \<lparr>Name = Some (Str (js ''T'')), Published = js ''2024-05-01'',
                     Tags = None, Slug = None\<rparr>
                  (replicate 100 (Paragraph (js ''x''))),
                children_request (Some (js ''p1'')) (replicate 100 (Paragraph (js ''x''))),
                children_request (Some (js ''p1'')) (replicate 50 (Paragraph (js ''x'')))],
       service = (\<lambda>_. Ok (Some (js ''p1''))), disk = (\<lambda>_. None)\<rparr>) \<and>
   length (markdownToNotionBlocks (js_join [nl] (replicate 250 (js ''x'')))) = 250 \<and>
   length (take 100 (markdownToNotionBlocks (js_join [nl] (replicate 250 (js ''x''))))) = 100 \<and>
   length (drop 200 (markdownToNotionBlocks (js_join [nl] (replicate 250 (js ''x''))))) = 50"
proof -
  define fm where "fm = initial_frontmatter(js ''title'' \<mapsto> Str (js ''T''),
    js ''date'' \<mapsto> Str (js ''2024-05-01''))"
  define content where "content = js_join [nl] (replicate 250 (js ''x''))"
  define w where "w = \<lparr>sent = [], service = (\<lambda>_. Ok (Some (js ''p1''))), disk = (\<lambda>_. None)\<rparr>"
  define props where "props = \<lparr>Name = Some (Str (js ''T'')), Published = js ''2024-05-01'',
                     Tags = None, Slug = None\<rparr>"
  have "js_split nl content = replicate 250 (js ''x'')"
    unfolding content_def by (rule js_split_join) (simp_all add: js_def nl_def)
  then have blocks: "markdownToNotionBlocks content = replicate 250 (Paragraph (js ''x''))"
    by (simp add: markdownToNotionBlocks_def scan_paragraphs)
  have pp: "build_properties fm = Inr props"
    by (simp add: build_properties_def fm_def props_def initial_frontmatter_def js_def
        is_truthy_def)
  have run: "createNotionPage fm content w
    = (Inr (Some (js ''p1'')),
       w\<lparr>sent := [page_request props (replicate 100 (Paragraph (js ''x''))),
                children_request (Some (js ''p1'')) (replicate 100 (Paragraph (js ''x''))),
                children_request (Some (js ''p1'')) (replicate 50 (Paragraph (js ''x'')))]\<rparr>)"
    by (simp add: createNotionPage_def blocks pp notionRequest_def Let_def
        append_chunks.simps chunkSize_def w_def page_request_def children_request_def)
  have len: "length (markdownToNotionBlocks content) = 250" by (simp add: blocks)
  from createNotionPage_chunks [OF run pp refl] len
  have "length (take 100 (markdownToNotionBlocks content)) = 100"
    "length (drop 200 (markdownToNotionBlocks content)) = 50" by simp_all
  with run len show ?thesis
    by (simp add: fm_def content_def w_def props_def)
qed


section \<open>The pull run: what each step leaves unchanged\<close>

lemma process_pages_frame:
  "process_pages ps posts w = (r, w') \<Longrightarrow> w' = w\<lparr>console := console w'\<rparr>"
proof (induction ps posts w rule: process_pages.induct)
  case (1 posts w)
  then show ?case by simp
next
  case (2 pg rest posts w)
  show ?case
  proof (cases "has_properties pg")
    case False
    with 2 show ?thesis by simp
  next
    case hp: True
    show ?thesis
    proof (cases "\<not> truthy (getPropertyValue pg (js ''Name'')) \<or>
        \<not> truthy (js_or (getPropertyValue pg (js ''Published'')) (getPropertyValue pg (js ''Created time'')))")
      case True
      with hp "2.prems" have "process_pages rest posts (print (Skipping_page (ident pg)) w) = (r, w')"
        by (simp add: Let_def)
      from "2.IH"(2) [OF _ refl refl refl refl refl refl True this] hp
      show ?thesis by (simp add: print_def)
    next
      case False
      with hp "2.prems" "2.IH"(3) show ?thesis
        by (auto simp: Let_def split: option.splits sum.splits if_splits)
    qed
  qed
qed

lemma process_pages_queries:
  assumes "process_pages ps posts w = (r, w')"
  shows "queries w' = queries w"
proof -
  from process_pages_frame [OF assms] have "queries w' = queries (w\<lparr>console := console w'\<rparr>)"
    by simp
  then show ?thesis by simp
qed

lemma fetch_loop_inv:
  assumes run: "fetch_loop flt0 c0 posts0 w0 = Some y0"
  shows "fetch_inv flt0 w0 (snd y0)"
proof (rule fetch_loop.raw_induct [where P = "\<lambda>flt c posts w y. fetch_inv flt w (snd y)", OF _ run])
  fix loop :: "jsstring option \<Rightarrow> jsstring option \<Rightarrow> BlogPost list \<Rightarrow> pull_world
     \<Rightarrow> ((error + BlogPost list) \<times> pull_world) option"
  fix flt c posts w y
  assume IH: "\<And>flt c posts w y. loop flt c posts w = Some y \<Longrightarrow> fetch_inv flt w (snd y)"
  assume eq: "(let w1 = w\<lparr>queries := queries w @ [\<lparr>start_cursor = c, filter_after = flt\<rparr>]\<rparr>
      in case data_source w (queries w1) of
           Answer response \<Rightarrow>
             (case process_pages (results response) posts w1 of
                (Inl e, w2) \<Rightarrow> Some (Inl e, w2)
              | (Inr posts', w2) \<Rightarrow>
                  if has_more response
                  then loop flt (cursor_or_undefined (next_cursor response)) posts' w2
                  else Some (Inr posts', w2))
         | Query_throws \<Rightarrow> Some (Inl QueryError, w1)) = Some y"
  define q where "q = \<lparr>start_cursor = c, filter_after = flt\<rparr>"
  define w1 where "w1 = w\<lparr>queries := queries w @ [q]\<rparr>"
  show "fetch_inv flt w (snd y)"
  proof (cases "data_source w (queries w1)")
    case Query_throws
    with eq have "y = (Inl QueryError, w1)"
      by (simp add: Let_def w1_def q_def)
    then show ?thesis by (simp add: w1_def q_def fetch_inv_def)
  next
    case (Answer response)
    obtain r w2 where pp: "process_pages (results response) posts w1 = (r, w2)" by fastforce
    note fr = process_pages_frame [OF pp]
    have qu: "queries w2 = queries w @ [q]"
      using process_pages_queries [OF pp] by (simp add: w1_def)
    have w2: "w2 = w\<lparr>queries := queries w2, console := console w2\<rparr>"
      using fr qu by (simp add: w1_def)
    show ?thesis
    proof (cases r)
      case (Inl e)
      with eq Answer pp have "y = (Inl e, w2)"
        by (simp add: Let_def w1_def q_def)
      with w2 qu show ?thesis by (simp add: q_def fetch_inv_def)
    next
      case (Inr posts')
      show ?thesis
      proof (cases "has_more response")
        case False
        with eq Answer pp Inr have "y = (Inr posts', w2)"
          by (simp add: Let_def w1_def q_def)
        with w2 qu show ?thesis by (simp add: q_def fetch_inv_def)
      next
        case True
        with eq Answer pp Inr
        have "loop flt (cursor_or_undefined (next_cursor response)) posts' w2 = Some y"
          by (simp add: Let_def w1_def q_def)
        from IH [OF this]
        have a: "snd y = w2\<lparr>queries := queries (snd y), console := console (snd y)\<rparr>"
          and b: "\<exists>qs. queries (snd y) = queries w2 @ qs \<and> qs \<noteq> [] \<and> (\<forall>q\<in>set qs. filter_after q = flt)"
          by (simp_all add: fetch_inv_def)
        from b obtain qs where qs: "queries (snd y) = queries w2 @ qs" "\<forall>q\<in>set qs. filter_after q = flt"
          by blast
        have "snd y = w\<lparr>queries := queries (snd y), console := console (snd y)\<rparr>"
          by (subst a, subst w2) simp
        moreover have "queries (snd y) = queries w @ (q # qs)" using qs qu by simp
        moreover have "\<forall>x\<in>set (q # qs). filter_after x = flt" using qs by (simp add: q_def)
        ultimately show ?thesis unfolding fetch_inv_def by blast
      qed
    qed
  qed
qed


lemma fetchBlogPosts_inv:
  assumes "fetchBlogPosts t w = Some (r, w')"
  shows "fetch_inv (build_filter t) w w'"
proof -
  from fetch_loop_inv [OF assms [unfolded fetchBlogPosts_def]]
  show ?thesis by (auto simp: fetch_inv_def print_def)
qed

lemma writeFile_frame:
  "writeFile year name txt w = (r, w') \<Longrightarrow> \<exists>ys. w' = w\<lparr>yearDirs := ys\<rparr>"
  by (auto simp: writeFile_def split: option.splits if_splits intro: exI [of _ "yearDirs w"])

lemma write_posts_frame:
  "write_posts year ex m k ps w = (r, w') \<Longrightarrow>
   \<exists>ys cs. w' = w\<lparr>yearDirs := ys, console := cs\<rparr>"
proof (induction ps arbitrary: k w)
  case Nil
  then have "w' = w\<lparr>yearDirs := yearDirs w, console := console w\<rparr>" by simp
  then show ?case by blast
next
  case (Cons p ps)
  define f where "f = find (\<lambda>f. js_includes f (toString (post_slug p))) ex"
  define name where "name = (case f of Some g \<Rightarrow> g
      | None \<Rightarrow> new_filename w (next_index w m k) (toString (post_slug p)))"
  define k' where "k' = (case f of Some g \<Rightarrow> k | None \<Rightarrow> k + 1)"
  define w1 where "w1 = (case f of Some g \<Rightarrow> print (Updating_existing g) w | None \<Rightarrow> w)"
  have "w1 = w\<lparr>console := console w1\<rparr>"
    by (simp add: w1_def print_def split: option.splits)
  then obtain c1 where w1: "w1 = w\<lparr>console := c1\<rparr>" ..
  show ?case
  proof (cases "generateFrontmatter p")
    case (Inl e)
    with Cons.prems have "w' = w1"
      by (simp add: Let_def w1_def f_def)
    with w1 have "w' = w\<lparr>yearDirs := yearDirs w, console := c1\<rparr>" by simp
    then show ?thesis by blast
  next
    case (Inr fmt)
    obtain x w2 where wf: "writeFile year name (fmt @ [nl, nl] @ post_content p) w1 = (x, w2)"
      by fastforce
    from writeFile_frame [OF wf] obtain y2 where "w2 = w1\<lparr>yearDirs := y2\<rparr>" ..
    with w1 have w2: "w2 = w\<lparr>yearDirs := y2, console := c1\<rparr>" by simp
    show ?thesis
    proof (cases x)
      case (Inl e)
      with Cons.prems Inr wf have "w' = w2"
        by (simp add: Let_def w1_def f_def name_def)
      with w2 show ?thesis by blast
    next
      case (Inr u)
      with Cons.prems \<open>generateFrontmatter p = Inr fmt\<close> wf
      have "write_posts year ex m k' ps (print (Written year name) w2) = (r, w')"
        by (simp add: Let_def w1_def f_def name_def k'_def)
      from Cons.IH [OF this] obtain ys cs
        where "w' = (print (Written year name) w2)\<lparr>yearDirs := ys, console := cs\<rparr>" by blast
      with w2 have "w' = w\<lparr>yearDirs := ys, console := cs\<rparr>" by (simp add: print_def)
      then show ?thesis by blast
    qed
  qed
qed

lemma sync_year_frame:
  assumes "sync_year year ps w = (r, w')"
  shows "\<exists>ys cs. w' = w\<lparr>yearDirs := ys, console := cs\<rparr>"
proof -
  define w1 where "w1 = (if yearDirs w year = None then w\<lparr>yearDirs := (yearDirs w)(year := Some [])\<rparr> else w)"
  have w1: "w1 = w\<lparr>yearDirs := yearDirs w1, console := console w\<rparr>"
    by (simp add: w1_def)
  have base: "w = w\<lparr>yearDirs := yearDirs w, console := console w\<rparr>" by simp
  show ?thesis
  proof (cases "yearDirs w year = None \<and> fs_fails w (Mkdir year)")
    case True
    with assms have "w' = w" by (simp add: sync_year_def)
    with base show ?thesis by metis
  next
    case False
    show ?thesis
    proof (cases "\<exists>files. yearDirs w1 year = Some files \<and> fs_fails w1 (Readdir year)")
      case True
      with False assms have "w' = w1"
        by (auto simp: sync_year_def Let_def w1_def split: if_splits)
      with w1 show ?thesis by metis
    next
      case nf: False
      with False assms obtain ex m where "write_posts year ex m 0 (sort_posts w1 ps) w1 = (r, w')"
        by (cases "yearDirs w1 year") (auto simp: sync_year_def Let_def w1_def split: if_splits)
      from write_posts_frame [OF this] obtain ys cs where "w' = w1\<lparr>yearDirs := ys, console := cs\<rparr>"
        by blast
      then have "w' = w\<lparr>yearDirs := ys, console := cs\<rparr>" by (subst (asm) w1) simp
      then show ?thesis by blast
    qed
  qed
qed

lemma sync_years_frame:
  "sync_years ys w = (r, w') \<Longrightarrow> \<exists>ys cs. w' = w\<lparr>yearDirs := ys, console := cs\<rparr>"
proof (induction ys arbitrary: w)
  case Nil
  then have "w' = w\<lparr>yearDirs := yearDirs w, console := console w\<rparr>" by simp
  then show ?case by blast
next
  case (Cons a ys)
  obtain year ps where a: "a = (year, ps)" by (cases a)
  obtain x w1 where sy: "sync_year year ps w = (x, w1)" by fastforce
  from sync_year_frame [OF sy] obtain y1 c1 where w1: "w1 = w\<lparr>yearDirs := y1, console := c1\<rparr>"
    by blast
  show ?case
  proof (cases x)
    case (Inl e)
    with Cons.prems a sy have "w' = w1" by simp
    with w1 show ?thesis by blast
  next
    case (Inr u)
    with Cons.prems a sy have "sync_years ys w1 = (r, w')" by simp
    from Cons.IH [OF this] obtain y2 c2 where "w' = w1\<lparr>yearDirs := y2, console := c2\<rparr>" by blast
    with w1 have "w' = w\<lparr>yearDirs := y2, console := c2\<rparr>" by simp
    then show ?thesis by blast
  qed
qed


lemma loadSyncState_frame: "\<exists>cs. snd (loadSyncState w) = w\<lparr>console := cs\<rparr>"
proof -
  have "snd (loadSyncState w) = w\<lparr>console := console (snd (loadSyncState w))\<rparr>"
    by (simp add: loadSyncState_def print_def split: option.splits state_file.splits)
  then show ?thesis ..
qed

lemma loaded_time:
  "map_option lastSyncTime (fst (loadSyncState w)) =
     (case syncStateFile w of Some (Stored s) \<Rightarrow> Some (lastSyncTime s) | _ \<Rightarrow> None)"
  by (simp add: loadSyncState_def split: option.splits state_file.splits)

text \<open>The steps of syncPosts, for a run that returns.\<close>

lemma syncPosts_steps:
  assumes "syncPosts w = Some (r, w')"
  obtains
    (fetch_failed) e where
      "fetchBlogPosts (map_option lastSyncTime (fst (loadSyncState w)))
         (print Fetching_posts (snd (loadSyncState w))) = Some (Inl e, w')"
      "r = Inl e"
  | (no_posts) w2 where
      "fetchBlogPosts (map_option lastSyncTime (fst (loadSyncState w)))
         (print Fetching_posts (snd (loadSyncState w))) = Some (Inr [], w2)"
      "saveSyncState \<lparr>lastSyncTime = now (snd (loadSyncState w))\<rparr> (print No_new_posts w2) = (r, w')"
  | (write_failed) posts w2 e where
      "fetchBlogPosts (map_option lastSyncTime (fst (loadSyncState w)))
         (print Fetching_posts (snd (loadSyncState w))) = Some (Inr posts, w2)"
      "posts \<noteq> []"
      "sync_years (group_by_year w2 posts) (print (Found_posts (length posts)) w2) = (Inl e, w')"
      "r = Inl e"
  | (written) posts w2 w3 x w4 where
      "fetchBlogPosts (map_option lastSyncTime (fst (loadSyncState w)))
         (print Fetching_posts (snd (loadSyncState w))) = Some (Inr posts, w2)"
      "posts \<noteq> []"
      "sync_years (group_by_year w2 posts) (print (Found_posts (length posts)) w2) = (Inr (), w3)"
      "saveSyncState \<lparr>lastSyncTime = now (snd (loadSyncState w))\<rparr> w3 = (x, w4)"
      "(x = Inr () \<and> r = Inr () \<and> w' = print (Sync_completed (now (snd (loadSyncState w)))) w4) \<or>
       (\<exists>e. x = Inl e \<and> r = Inl e \<and> w' = w4)"
proof -
  define t where "t = map_option lastSyncTime (fst (loadSyncState w))"
  define wf where "wf = print Fetching_posts (snd (loadSyncState w))"
  define cur where "cur = now (snd (loadSyncState w))"
  have run: "(case fetchBlogPosts t wf of
               None \<Rightarrow> None
             | Some (Inl e, w2) \<Rightarrow> Some (Inl e, w2)
             | Some (Inr posts, w2) \<Rightarrow>
                 if length posts = 0 then
                   Some (saveSyncState \<lparr>lastSyncTime = cur\<rparr> (print No_new_posts w2))
                 else
                   (case sync_years (group_by_year w2 posts) (print (Found_posts (length posts)) w2) of
                      (Inl e, w3) \<Rightarrow> Some (Inl e, w3)
                    | (Inr _, w3) \<Rightarrow>
                        (case saveSyncState \<lparr>lastSyncTime = cur\<rparr> w3 of
                           (Inl e, w4) \<Rightarrow> Some (Inl e, w4)
                         | (Inr _, w4) \<Rightarrow> Some (Inr (), print (Sync_completed cur) w4)))) = Some (r, w')"
    unfolding t_def wf_def cur_def using assms
    by (cases "loadSyncState w")
      (simp add: syncPosts_def Let_def cong: option.case_cong prod.case_cong sum.case_cong if_cong)
  then obtain fr w2 where f: "fetchBlogPosts t wf = Some (fr, w2)"
    by (cases "fetchBlogPosts t wf") auto
  show thesis
  proof (cases fr)
    case (Inl e)
    with run f have "r = Inl e" "w' = w2" by simp_all
    with f Inl have "fetchBlogPosts t wf = Some (Inl e, w')" "r = Inl e" by simp_all
    then show thesis unfolding t_def wf_def by (rule fetch_failed)
  next
    case (Inr posts)
    show thesis
    proof (cases "posts = []")
      case True
      with run f Inr have sv: "saveSyncState \<lparr>lastSyncTime = cur\<rparr> (print No_new_posts w2) = (r, w')"
        by simp
      from f Inr True have "fetchBlogPosts t wf = Some (Inr [], w2)" by simp
      from this sv show thesis unfolding t_def wf_def cur_def by (rule no_posts)
    next
      case ne: False
      obtain sr w3 where sy: "sync_years (group_by_year w2 posts) (print (Found_posts (length posts)) w2) = (sr, w3)"
        by fastforce
      show thesis
      proof (cases sr)
        case (Inl e)
        with run f Inr ne sy have "r = Inl e" "w' = w3" by simp_all
        with f Inr ne sy Inl
        have "fetchBlogPosts t wf = Some (Inr posts, w2)" "posts \<noteq> []"
          "sync_years (group_by_year w2 posts) (print (Found_posts (length posts)) w2) = (Inl e, w')"
          "r = Inl e" by simp_all
        then show thesis unfolding t_def wf_def by (rule write_failed)
      next
        case (Inr u)
        obtain x w4 where sv: "saveSyncState \<lparr>lastSyncTime = cur\<rparr> w3 = (x, w4)" by fastforce
        have fin: "(x = Inr () \<and> r = Inr () \<and> w' = print (Sync_completed cur) w4) \<or>
              (\<exists>e. x = Inl e \<and> r = Inl e \<and> w' = w4)"
          using run f \<open>fr = Inr posts\<close> ne sy Inr sv by (cases x) auto
        from f \<open>fr = Inr posts\<close> ne sy Inr sv
        have "fetchBlogPosts t wf = Some (Inr posts, w2)" "posts \<noteq> []"
          "sync_years (group_by_year w2 posts) (print (Found_posts (length posts)) w2) = (Inr (), w3)"
          "saveSyncState \<lparr>lastSyncTime = cur\<rparr> w3 = (x, w4)" by simp_all
        from this fin show thesis unfolding t_def wf_def cur_def by (rule written)
      qed
    qed
  qed
qed


section \<open>The pull run: sync state and filter\<close>

lemma now_load: "now (snd (loadSyncState w)) = now w"
proof -
  from loadSyncState_frame obtain cs where "snd (loadSyncState w) = w\<lparr>console := cs\<rparr>" ..
  then show ?thesis by (simp add: now_def)
qed

lemma fetched_frame:
  assumes "fetchBlogPosts (map_option lastSyncTime (fst (loadSyncState w)))
         (print Fetching_posts (snd (loadSyncState w))) = Some (fr, w2)"
  shows "\<exists>qs cs. w2 = w\<lparr>queries := queries w @ qs, console := cs\<rparr> \<and> qs \<noteq> [] \<and>
           (\<forall>q\<in>set qs. filter_after q = build_filter (map_option lastSyncTime (fst (loadSyncState w))))"
proof -
  from loadSyncState_frame obtain c0 where l: "snd (loadSyncState w) = w\<lparr>console := c0\<rparr>" ..
  from fetchBlogPosts_inv [OF assms]
  obtain qs where a: "w2 = (print Fetching_posts (snd (loadSyncState w)))\<lparr>queries := queries w2, console := console w2\<rparr>"
    and b: "queries w2 = queries (print Fetching_posts (snd (loadSyncState w))) @ qs" "qs \<noteq> []"
      "\<forall>q\<in>set qs. filter_after q = build_filter (map_option lastSyncTime (fst (loadSyncState w)))"
    unfolding fetch_inv_def by blast
  from b(1) l have q: "queries w2 = queries w @ qs" by (simp add: print_def)
  from a l q have "w2 = w\<lparr>queries := queries w @ qs, console := console w2\<rparr>"
    by (simp add: print_def)
  with b show ?thesis by blast
qed

lemma saveSyncState_result:
  "saveSyncState st w = (r, w') \<Longrightarrow>
   (r = Inr () \<and> w' = w\<lparr>syncStateFile := Some (Stored st)\<rparr> \<and> \<not> fs_fails w Write_state) \<or>
   (r = Inl StateWriteError \<and> w' = w\<lparr>syncStateFile := damaged w\<rparr> \<and> fs_fails w Write_state)"
  by (auto simp: saveSyncState_def split: if_splits)

text \<open>
  Claim C2. Of a pull run that returns: when it returns without an error, the sync-state
  file holds the time read before the first query was sent; when it returns with an error
  that is not the failure of the write of the sync-state file itself (so: an error of the
  query, of the conversion to Markdown, or of a directory or file operation on the
  content), the sync-state file is as it was before the run. A run that does not return
  never reaches the write.
\<close>

theorem pull_state_saved_on_success_only:
  assumes "syncPosts w = Some (r, w')"
  shows "(r = Inr () \<longrightarrow> syncStateFile w' = Some (Stored \<lparr>lastSyncTime = now w\<rparr>)) \<and>
         (\<forall>e. r = Inl e \<and> e \<noteq> StateWriteError \<longrightarrow> syncStateFile w' = syncStateFile w)"
  using assms
proof (cases rule: syncPosts_steps)
  case (fetch_failed e)
  from fetched_frame [OF fetch_failed(1)] have "syncStateFile w' = syncStateFile w" by auto
  with fetch_failed show ?thesis by simp
next
  case (no_posts w2)
  from saveSyncState_result [OF no_posts(2)] show ?thesis
    by (auto simp: now_load print_def)
next
  case (write_failed posts w2 e)
  from fetched_frame [OF write_failed(1)] have a: "syncStateFile w2 = syncStateFile w" by auto
  from sync_years_frame [OF write_failed(3)] have "syncStateFile w' = syncStateFile w2"
    by (auto simp: print_def)
  with a write_failed show ?thesis by simp
next
  case (written posts w2 w3 x w4)
  from saveSyncState_result [OF written(4)] written(5) show ?thesis
    by (auto simp: now_load print_def)
qed

lemma pull_filter_by_state:
  assumes "syncPosts w = Some (r, w')"
  shows "\<exists>qs. queries w' = queries w @ qs \<and> qs \<noteq> [] \<and>
           (\<forall>q\<in>set qs. filter_after q =
              (case syncStateFile w of
                 Some (Stored s) \<Rightarrow> if lastSyncTime s = [] then None else Some (lastSyncTime s)
               | _ \<Rightarrow> None))"
proof -
  have flt: "build_filter (map_option lastSyncTime (fst (loadSyncState w))) =
              (case syncStateFile w of
                 Some (Stored s) \<Rightarrow> if lastSyncTime s = [] then None else Some (lastSyncTime s)
               | _ \<Rightarrow> None)"
    by (simp add: loaded_time build_filter_def split: option.splits state_file.splits)
  have sv: "\<And>st u x v. saveSyncState st u = (x, v) \<Longrightarrow> queries v = queries u"
    by (auto simp: saveSyncState_def split: if_splits)
  from assms show ?thesis
  proof (cases rule: syncPosts_steps)
    case (fetch_failed e)
    from fetched_frame [OF fetch_failed(1)] show ?thesis unfolding flt by auto
  next
    case (no_posts w2)
    from fetched_frame [OF no_posts(1)] sv [OF no_posts(2)] show ?thesis
      unfolding flt by (auto simp: print_def)
  next
    case (write_failed posts w2 e)
    from sync_years_frame [OF write_failed(3)] have "queries w' = queries w2"
      by (auto simp: print_def)
    with fetched_frame [OF write_failed(1)] show ?thesis unfolding flt by auto
  next
    case (written posts w2 w3 x w4)
    from sync_years_frame [OF written(3)] have "queries w3 = queries w2"
      by (auto simp: print_def)
    moreover from sv [OF written(4)] written(5) have "queries w' = queries w3"
      by (auto simp: print_def)
    ultimately show ?thesis using fetched_frame [OF written(1)] unfolding flt by auto
  qed
qed

text \<open>
  Claim C3. The stored lastSyncTime is a timestamp: the script writes the sync state with
  \<open>toISOString\<close> only, so a stored state never holds the empty string. Then every query of
  a pull run carries the filter "edited after the stored lastSyncTime" when a sync state
  was loaded, and no filter at all when no sync-state file exists or when the file is
  unreadable. At least one query is sent.
\<close>

theorem pull_filter_stored_time:
  assumes "syncPosts w = Some (r, w')"
    and "\<forall>s. syncStateFile w = Some (Stored s) \<longrightarrow> lastSyncTime s \<noteq> []"
  shows "\<exists>qs. queries w' = queries w @ qs \<and> qs \<noteq> [] \<and>
           (\<forall>q\<in>set qs. filter_after q =
              (case syncStateFile w of
                 Some (Stored s) \<Rightarrow> Some (lastSyncTime s)
               | Some Unreadable \<Rightarrow> None
               | None \<Rightarrow> None))"
proof -
  from assms(2)
  have "(case syncStateFile w of
           Some (Stored s) \<Rightarrow> if lastSyncTime s = [] then None else Some (lastSyncTime s)
         | _ \<Rightarrow> None)
      = (case syncStateFile w of
           Some (Stored s) \<Rightarrow> Some (lastSyncTime s)
         | Some Unreadable \<Rightarrow> None
         | None \<Rightarrow> None)"
    by (simp split: option.splits state_file.splits)
  with pull_filter_by_state [OF assms(1)] show ?thesis by simp
qed

text \<open>
  Claim C9. When the fetch of a pull run returns no post, and the write of the sync-state
  file does not fail, syncPosts returns without an error; the year directories are as
  they were before the run (no Markdown file is written), and the sync-state file holds
  the time read before the query was sent.
\<close>

theorem pull_nothing_fetched:
  assumes "fetchBlogPosts (map_option lastSyncTime (fst (loadSyncState w)))
         (print Fetching_posts (snd (loadSyncState w))) = Some (Inr [], w2)"
    and "\<not> fs_fails w Write_state"
  shows "syncPosts w = Some (Inr (),
           (print No_new_posts w2)\<lparr>syncStateFile := Some (Stored \<lparr>lastSyncTime = now w\<rparr>)\<rparr>) \<and>
         yearDirs w2 = yearDirs w"
proof -
  from fetched_frame [OF assms(1)] have f: "fs_fails w2 = fs_fails w" "yearDirs w2 = yearDirs w"
    by auto
  with assms(2) have "saveSyncState \<lparr>lastSyncTime = now w\<rparr> (print No_new_posts w2)
    = (Inr (), (print No_new_posts w2)\<lparr>syncStateFile := Some (Stored \<lparr>lastSyncTime = now w\<rparr>)\<rparr>)"
    by (simp add: saveSyncState_def print_def)
  then have "saveSyncState \<lparr>lastSyncTime = now (snd (loadSyncState w))\<rparr> (print No_new_posts w2)
    = (Inr (), (print No_new_posts w2)\<lparr>syncStateFile := Some (Stored \<lparr>lastSyncTime = now w\<rparr>)\<rparr>)"
    by (simp only: now_load)
  with assms(1) f show ?thesis
    by (cases "loadSyncState w") (simp add: syncPosts_def Let_def)
qed


lemma example_fetch:
  "fetchBlogPosts None (print Fetching_posts example_world)
     = Some (Inr [], example_world\<lparr>queries := [\<lparr>start_cursor = None, filter_after = None\<rparr>],
                                    console := [Fetching_posts, Full_sync]\<rparr>)"
  by (subst fetchBlogPosts_def, subst fetch_loop.simps)
    (simp add: build_filter_def print_def example_world_def no_pages_def Let_def)

theorem pull_nothing_fetched_witness:
  "syncPosts example_world
     = Some (Inr (),
         example_world\<lparr>syncStateFile := Some (Stored \<lparr>lastSyncTime = js ''2024-06-01T10:00:00.000Z''\<rparr>),
                        queries := [\<lparr>start_cursor = None, filter_after = None\<rparr>],
                        console := [Fetching_posts, Full_sync, No_new_posts]\<rparr>) \<and>
   yearDirs example_world = (\<lambda>_. None)"
proof -
  have l: "loadSyncState example_world = (None, example_world)"
    by (simp add: loadSyncState_def example_world_def)
  have f: "\<not> fs_fails example_world Write_state" by (simp add: example_world_def)
  have n: "now example_world = js ''2024-06-01T10:00:00.000Z''"
    by (simp add: now_def example_world_def)
  from pull_nothing_fetched [of example_world, unfolded l fst_conv snd_conv option.map, OF example_fetch f]
  show ?thesis
    by (simp add: n print_def) (simp add: example_world_def)
qed


lemma conversion_fails_run:
  "map_option fst (syncPosts (example_world
      \<lparr>syncStateFile := Some (Stored \<lparr>lastSyncTime = js ''2024-05-01T00:00:00.000Z''\<rparr>),
       data_source := (\<lambda>_. Answer \<lparr>results = [example_page (js ''p1'') (js ''Hello'') (js ''2024-01-10'')],
                                     has_more = False, next_cursor = None\<rparr>),
       page_markdown := (\<lambda>_. None)\<rparr>)) = Some (Inl ConversionError)"
  by (simp add: syncPosts_def loadSyncState_def fetchBlogPosts_def fetch_loop.simps
      build_filter_def print_def example_world_def example_page_def getPropertyValue_def
      js_or_def or_null_def getRichTextContent_def Let_def js_def)

theorem pull_state_saved_on_success_only_witness:
  "map_option fst (syncPosts (example_world
      \<lparr>syncStateFile := Some (Stored \<lparr>lastSyncTime = js ''2024-05-01T00:00:00.000Z''\<rparr>),
       data_source := (\<lambda>_. Answer \<lparr>results = [example_page (js ''p1'') (js ''Hello'') (js ''2024-01-10'')],
                                     has_more = False, next_cursor = None\<rparr>),
       page_markdown := (\<lambda>_. None)\<rparr>)) = Some (Inl ConversionError) \<and>
   map_option (\<lambda>y. syncStateFile (snd y)) (syncPosts (example_world
      \<lparr>syncStateFile := Some (Stored \<lparr>lastSyncTime = js ''2024-05-01T00:00:00.000Z''\<rparr>),
       data_source := (\<lambda>_. Answer \<lparr>results = [example_page (js ''p1'') (js ''Hello'') (js ''2024-01-10'')],
                                     has_more = False, next_cursor = None\<rparr>),
       page_markdown := (\<lambda>_. None)\<rparr>))
     = Some (Some (Stored \<lparr>lastSyncTime = js ''2024-05-01T00:00:00.000Z''\<rparr>))"
proof -
  define w where "w = example_world
      \<lparr>syncStateFile := Some (Stored \<lparr>lastSyncTime = js ''2024-05-01T00:00:00.000Z''\<rparr>),
       data_source := (\<lambda>_. Answer \<lparr>results = [example_page (js ''p1'') (js ''Hello'') (js ''2024-01-10'')],
                                     has_more = False, next_cursor = None\<rparr>),
       page_markdown := (\<lambda>_. None)\<rparr>"
  have r: "map_option fst (syncPosts w) = Some (Inl ConversionError)"
    unfolding w_def by (rule conversion_fails_run)
  then obtain w' where run: "syncPosts w = Some (Inl ConversionError, w')"
    by (cases "syncPosts w") auto
  from pull_state_saved_on_success_only [OF run]
  have "syncStateFile w' = syncStateFile w" by simp
  then have "syncStateFile w' = Some (Stored \<lparr>lastSyncTime = js ''2024-05-01T00:00:00.000Z''\<rparr>)"
    by (simp add: w_def)
  with run r show ?thesis unfolding w_def [symmetric] by simp
qed


lemma no_pages_run:
  "map_option (\<lambda>y. queries (snd y)) (syncPosts (example_world\<lparr>syncStateFile := sf\<rparr>))
   = Some [\<lparr>start_cursor = None,
            filter_after = (case sf of
                              Some (Stored s) \<Rightarrow> if lastSyncTime s = [] then None
                                                  else Some (lastSyncTime s)
                            | _ \<Rightarrow> None)\<rparr>]"
  by (simp add: syncPosts_def loadSyncState_def fetchBlogPosts_def fetch_loop.simps
      build_filter_def print_def example_world_def no_pages_def saveSyncState_def Let_def
      split: option.splits state_file.splits)

lemma no_pages_returns:
  "\<exists>r w'. syncPosts (example_world\<lparr>syncStateFile := sf\<rparr>) = Some (r, w')"
  using no_pages_run [of sf] by (cases "syncPosts (example_world\<lparr>syncStateFile := sf\<rparr>)") auto

theorem pull_filter_stored_time_witness:
  "map_option (\<lambda>y. filter_after ` set (queries (snd y)))
     (syncPosts (example_world
        \<lparr>syncStateFile := Some (Stored \<lparr>lastSyncTime = js ''2024-05-01T00:00:00.000Z''\<rparr>)\<rparr>))
   = Some {Some (js ''2024-05-01T00:00:00.000Z'')} \<and>
   map_option (\<lambda>y. filter_after ` set (queries (snd y)))
     (syncPosts (example_world\<lparr>syncStateFile := None\<rparr>)) = Some {None} \<and>
   map_option (\<lambda>y. filter_after ` set (queries (snd y)))
     (syncPosts (example_world\<lparr>syncStateFile := Some Unreadable\<rparr>)) = Some {None}"
proof -
  have one: "map_option (\<lambda>y. filter_after ` set (queries (snd y)))
       (syncPosts (example_world\<lparr>syncStateFile := sf\<rparr>))
     = Some {case sf of Some (Stored s) \<Rightarrow> Some (lastSyncTime s) | Some Unreadable \<Rightarrow> None | None \<Rightarrow> None}"
    if ok: "\<forall>s. sf = Some (Stored s) \<longrightarrow> lastSyncTime s \<noteq> []" for sf
  proof -
    define w where "w = example_world\<lparr>syncStateFile := sf\<rparr>"
    from no_pages_returns [of sf] obtain r w' where run: "syncPosts w = Some (r, w')"
      unfolding w_def by blast
    have st: "syncStateFile w = sf" "queries w = []" by (simp_all add: w_def example_world_def)
    from pull_filter_stored_time [OF run] ok st
    obtain qs where qs: "queries w' = qs" "qs \<noteq> []"
      "\<forall>q\<in>set qs. filter_after q =
         (case sf of Some (Stored s) \<Rightarrow> Some (lastSyncTime s) | Some Unreadable \<Rightarrow> None | None \<Rightarrow> None)"
      by auto
    then have "filter_after ` set (queries w') =
      {case sf of Some (Stored s) \<Rightarrow> Some (lastSyncTime s) | Some Unreadable \<Rightarrow> None | None \<Rightarrow> None}"
      by (cases qs) auto
    with run show ?thesis unfolding w_def [symmetric] by simp
  qed
  have t: "js ''2024-05-01T00:00:00.000Z'' \<noteq> []" by (simp add: js_def)
  from one [of "Some (Stored \<lparr>lastSyncTime = js ''2024-05-01T00:00:00.000Z''\<rparr>)"]
    one [of None] one [of "Some Unreadable"] t
  show ?thesis by simp
qed

section \<open>Items without a title or a date\<close>

lemma migrate_files_error_shift:
  "migrate_files fs (r\<lparr>errorCount := errorCount r + 1\<rparr>) w =
     (case migrate_files fs r w of (r', w') \<Rightarrow> (r'\<lparr>errorCount := errorCount r' + 1\<rparr>, w'))"
proof (induction fs arbitrary: r w)
  case Nil
  show ?case by simp
next
  case (Cons p fs)
  define out where "out =
    (case disk w p of
       None \<Rightarrow> (False, w)
     | Some c \<Rightarrow>
         (case parseFrontmatter c of
            Inl e \<Rightarrow> (False, w)
          | Inr (fm, content) \<Rightarrow>
              if \<not> is_truthy (fm (js ''title'')) \<or> \<not> is_truthy (fm (js ''date'')) then (False, w)
              else (case createNotionPage fm content w of
                      (Inl e, w') \<Rightarrow> (False, w')
                    | (Inr i, w') \<Rightarrow> (True, w'))))"
  have step: "\<And>r. migrate_files (p # fs) r w =
      migrate_files fs (if fst out then r\<lparr>successCount := successCount r + 1\<rparr>
                        else r\<lparr>errorCount := errorCount r + 1\<rparr>) (snd out)"
    by (simp add: out_def split: option.splits sum.splits prod.splits)
  show ?case
  proof (cases "fst out")
    case True
    have "migrate_files fs (r\<lparr>errorCount := errorCount r + 1, successCount := successCount r + 1\<rparr>) (snd out)
        = migrate_files fs ((r\<lparr>successCount := successCount r + 1\<rparr>)
            \<lparr>errorCount := errorCount (r\<lparr>successCount := successCount r + 1\<rparr>) + 1\<rparr>) (snd out)"
      by (rule arg_cong [where f = "\<lambda>x. migrate_files fs x (snd out)"]) (cases r, simp)
    also note Cons.IH
    finally show ?thesis using True by (simp only: step) simp
  next
    case False
    with Cons.IH [of "r\<lparr>errorCount := errorCount r + 1\<rparr>" "snd out"]
    show ?thesis by (simp only: step) simp
  qed
qed

lemma process_pages_console:
  "fst (process_pages ps posts (w\<lparr>console := c\<rparr>)) = fst (process_pages ps posts w)"
proof (induction ps arbitrary: posts w c)
  case Nil
  show ?case by simp
next
  case (Cons pg ps)
  have p: "\<And>m. print m (w\<lparr>console := c\<rparr>) = w\<lparr>console := c @ [m]\<rparr>"
    "\<And>m. print m w = w\<lparr>console := console w @ [m]\<rparr>"
    by (simp_all add: print_def)
  show ?case
    by (simp add: Let_def p Cons.IH split: option.splits sum.splits)
qed


text \<open>
  Claim C8, as amended. Push: a file that is read and parsed and whose frontmatter lacks a
  title or a date is passed over; the files after it are handled as they would be without
  it, and the error count of the final report is one more. Pull: a page that lacks a title
  or a date is passed over with a warning; the pages after it are handled as they would be
  without it, with the same posts as the result. The pull run has no error count: the
  warning is all it prints about the page.
\<close>

theorem skip_without_title_or_date:
  "(disk w p = Some fileContent \<and> parseFrontmatter fileContent = Inr (fm, content) \<and>
    (\<not> is_truthy (fm (js ''title'')) \<or> \<not> is_truthy (fm (js ''date''))) \<longrightarrow>
      migrate_files (p # rest) r w =
        (case migrate_files rest r w of (r', w') \<Rightarrow> (r'\<lparr>errorCount := errorCount r' + 1\<rparr>, w'))) \<and>
   (has_properties pg \<and>
    (\<not> truthy (getPropertyValue pg (js ''Name'')) \<or>
     \<not> truthy (js_or (getPropertyValue pg (js ''Published''))
                       (getPropertyValue pg (js ''Created time'')))) \<longrightarrow>
      process_pages (pg # pages) posts pw
        = process_pages pages posts (print (Skipping_page (ident pg)) pw) \<and>
      fst (process_pages (pg # pages) posts pw) = fst (process_pages pages posts pw))"
proof (intro conjI impI)
  assume a: "disk w p = Some fileContent \<and> parseFrontmatter fileContent = Inr (fm, content) \<and>
    (\<not> is_truthy (fm (js ''title'')) \<or> \<not> is_truthy (fm (js ''date'')))"
  then have "migrate_files (p # rest) r w = migrate_files rest (r\<lparr>errorCount := errorCount r + 1\<rparr>) w"
    by auto
  then show "migrate_files (p # rest) r w =
        (case migrate_files rest r w of (r', w') \<Rightarrow> (r'\<lparr>errorCount := errorCount r' + 1\<rparr>, w'))"
    by (simp only: migrate_files_error_shift)
next
  assume b: "has_properties pg \<and>
    (\<not> truthy (getPropertyValue pg (js ''Name'')) \<or>
     \<not> truthy (js_or (getPropertyValue pg (js ''Published''))
                       (getPropertyValue pg (js ''Created time''))))"
  then show s: "process_pages (pg # pages) posts pw
        = process_pages pages posts (print (Skipping_page (ident pg)) pw)"
    by (auto simp: Let_def)
  show "fst (process_pages (pg # pages) posts pw) = fst (process_pages pages posts pw)"
    unfolding s print_def by (rule process_pages_console)
qed

lemma untitled_file:
  "parseFrontmatter (js ''---'' @ [nl] @ js ''date: 2024-01-10'' @ [nl] @ js ''---'' @ [nl] @ js ''Body'')
     = Inr (initial_frontmatter(js ''date'' \<mapsto> Str (js ''2024-01-10'')), js ''Body'')"
  by (simp add: parseFrontmatter_def frontmatterRegex_def startsWith_def endsWith_def js_def nl_def
      parse_line_def parse_value_def unquote_def quoted_def js_trim_def isWhiteSpace_def
      slice_1_m1_def initial_frontmatter_def)

theorem skip_without_title_or_date_witness:
  "migrate_files [js ''a.md'']
     \<lparr>successCount = 0, errorCount = 0\<rparr>
     \<lparr>sent = [], service = (\<lambda>_. No_answer),
      disk = (\<lambda>_. Some (js ''---'' @ [nl] @ js ''date: 2024-01-10'' @ [nl] @ js ''---'' @ [nl] @ js ''Body''))\<rparr>
   = (\<lparr>successCount = 0, errorCount = 1\<rparr>,
      \<lparr>sent = [], service = (\<lambda>_. No_answer),
       disk = (\<lambda>_. Some (js ''---'' @ [nl] @ js ''date: 2024-01-10'' @ [nl] @ js ''---'' @ [nl] @ js ''Body''))\<rparr>) \<and>
   process_pages [untitled_page (js ''p0'') (js ''2024-01-10'')] [] example_world
     = (Inr [], print (Skipping_page (js ''p0'')) example_world)"
proof -
  define w where "w = \<lparr>sent = [], service = (\<lambda>_. No_answer),
      disk = (\<lambda>_. Some (js ''---'' @ [nl] @ js ''date: 2024-01-10'' @ [nl] @ js ''---'' @ [nl] @ js ''Body''))\<rparr>"
  define fm where "fm = initial_frontmatter(js ''date'' \<mapsto> Str (js ''2024-01-10''))"
  have d: "disk w (js ''a.md'') = Some (js ''---'' @ [nl] @ js ''date: 2024-01-10'' @ [nl] @ js ''---'' @ [nl] @ js ''Body'')"
    by (simp add: w_def)
  have t: "\<not> is_truthy (fm (js ''title''))"
    by (simp add: fm_def initial_frontmatter_def is_truthy_def js_def)
  have h: "has_properties (untitled_page (js ''p0'') (js ''2024-01-10''))"
    "\<not> truthy (getPropertyValue (untitled_page (js ''p0'') (js ''2024-01-10'')) (js ''Name''))"
    "ident (untitled_page (js ''p0'') (js ''2024-01-10'')) = js ''p0''"
    by (simp_all add: untitled_page_def getPropertyValue_def getRichTextContent_def js_def)
  note th = skip_without_title_or_date [of w "js ''a.md''" _ fm "js ''Body''" "[]"
      "\<lparr>successCount = 0, errorCount = 0\<rparr>" "untitled_page (js ''p0'') (js ''2024-01-10'')"
      "[]" "[]" example_world]
  from th d untitled_file t
  have "migrate_files [js ''a.md''] \<lparr>successCount = 0, errorCount = 0\<rparr> w
          = (\<lparr>successCount = 0, errorCount = 1\<rparr>, w)"
    by (simp add: fm_def)
  moreover from th h
  have "process_pages [untitled_page (js ''p0'') (js ''2024-01-10'')] [] example_world
     = (Inr [], print (Skipping_page (js ''p0'')) example_world)"
    by simp
  ultimately show ?thesis unfolding w_def by (rule conjI)
qed


lemma skipping_run:
  "map_option (\<lambda>y. (fst y, console (snd y)))
     (syncPosts (example_world
        \<lparr>data_source := (\<lambda>_. Answer
           \<lparr>results = ps @ [example_page (js ''p1'') (js ''Hello'') (js ''2024-02-20'')],
            has_more = False, next_cursor = None\<rparr>)\<rparr>))
   = Some (Inr (), [Fetching_posts, Full_sync] @ map Skipping_page (map ident ps) @ [Found_posts 1,
         Written (js ''2024'') (js ''01-hello.md''),
         Sync_completed (js ''2024-06-01T10:00:00.000Z'')])"
  if "ps = [] \<or> ps = [untitled_page (js ''p0'') (js ''2024-01-10'')]"
  using that
  by (auto simp add: syncPosts_def loadSyncState_def fetchBlogPosts_def fetch_loop.simps
      build_filter_def print_def example_world_def example_page_def untitled_page_def
      getPropertyValue_def js_or_def or_null_def getRichTextContent_def Let_def js_def
      generateSlug_def toLowerCase_def lower_unit_def trim_hyphens_def is_slug_char_def hyphen_def
      group_by_year_def getYearFromDate_def example_dates_def show_int_def show_nat.simps
      sync_year_def max_index_def sort_posts_def new_filename_def padStart2_def
      next_index_def js_plus_def number_string_def
      generateFrontmatter_def escape_quotes_def writeFile_def saveSyncState_def now_def nl_def
      startsWith_def endsWith_def)


theorem skip_error_count_counterexample:
  "map_option (\<lambda>y. (fst y, console (snd y)))
     (syncPosts (example_world
        \<lparr>data_source := (\<lambda>_. Answer
           \<lparr>results = [untitled_page (js ''p0'') (js ''2024-01-10''),
                        example_page (js ''p1'') (js ''Hello'') (js ''2024-02-20'')],
            has_more = False, next_cursor = None\<rparr>)\<rparr>))
   = Some (Inr (), [Fetching_posts, Full_sync, Skipping_page (js ''p0''), Found_posts 1,
         Written (js ''2024'') (js ''01-hello.md''),
         Sync_completed (js ''2024-06-01T10:00:00.000Z'')]) \<and>
   map_option (\<lambda>y. (fst y, console (snd y)))
     (syncPosts (example_world
        \<lparr>data_source := (\<lambda>_. Answer
           \<lparr>results = [example_page (js ''p1'') (js ''Hello'') (js ''2024-02-20'')],
            has_more = False, next_cursor = None\<rparr>)\<rparr>))
   = Some (Inr (), [Fetching_posts, Full_sync, Found_posts 1,
         Written (js ''2024'') (js ''01-hello.md''),
         Sync_completed (js ''2024-06-01T10:00:00.000Z'')])"
  using skipping_run [of "[untitled_page (js ''p0'') (js ''2024-01-10'')]"] skipping_run [of "[]"]
  by (simp add: untitled_page_def)

section \<open>File names of a year\<close>




































lemma split_no_sep: "\<forall>i\<in>set (js_split d s). d \<notin> set i"
  by (induction s) (auto split: list.splits)

lemma split_concat_Cons:
  "concat (js_split d (a # s)) = (if a = d then concat (js_split d s) else a # concat (js_split d s))"
  by (cases "js_split d s") auto

lemma split_concat: "set (concat (js_split d s)) \<subseteq> set s"
proof (induction s)
  case Nil
  then show ?case by simp
next
  case (Cons a s)
  then show ?case unfolding split_concat_Cons by auto
qed

lemma split_subset: "i \<in> set (js_split d s) \<Longrightarrow> set i \<subseteq> set s"
  using split_concat [of d s] by auto

lemma set_trim: "set (js_trim s) \<subseteq> set s"
  by (auto simp: js_trim_def dest!: set_dropWhileD)

lemma set_slice: "set (slice_1_m1 s) \<subseteq> set s"
  by (cases s) (auto simp: slice_1_m1_def dest: in_set_butlastD)

lemma set_unquote: "set (unquote s) \<subseteq> set s"
  using set_slice by (auto simp: unquote_def)

lemma trim_ws_head: "isWhiteSpace c \<Longrightarrow> js_trim (c # s) = js_trim s"
  by (simp add: js_trim_def)

lemma trim_fixed_ends:
  "\<not> isWhiteSpace a \<Longrightarrow> \<not> isWhiteSpace b \<Longrightarrow> js_trim (a # s @ [b]) = a # s @ [b]"
  by (simp add: js_trim_def)

lemma unquote_single: "unquote (39 # x @ [39]) = x"
  by (simp add: unquote_def quoted_def startsWith_def endsWith_def slice_1_m1_def js_def)

lemma unquote_double: "unquote (34 # x @ [34]) = x"
  by (simp add: unquote_def quoted_def startsWith_def endsWith_def slice_1_m1_def js_def)

lemma key_line:
  assumes "58 \<notin> set k" "js_trim k = k"
  shows "parse_line fm (k @ 58 # v) = fm(k \<mapsto> parse_value (js_trim v))"
proof -
  have a: "\<forall>c\<in>set k. c \<noteq> 58" using assms(1) by auto
  then have "takeWhile (\<lambda>c. c \<noteq> 58) (k @ 58 # v) = k"
    by (simp add: takeWhile_tail)
  moreover from a have "dropWhile (\<lambda>c. c \<noteq> 58) (k @ 58 # v) = 58 # v"
    by (simp add: dropWhile_append3)
  ultimately show ?thesis by (simp add: parse_line_def assms(2))
qed

lemma parse_value_Str:
  "parse_value v = Str t \<Longrightarrow>
   t = unquote v \<and> \<not> (startsWith t (js ''['') \<and> endsWith t (js '']'')) \<and>
   t \<noteq> js ''true'' \<and> t \<noteq> js ''false''"
  by (auto simp: parse_value_def Let_def split: if_splits)

lemma parse_value_plain:
  "\<not> quoted t \<Longrightarrow> \<not> (startsWith t (js ''['') \<and> endsWith t (js '']'')) \<Longrightarrow>
   t \<noteq> js ''true'' \<Longrightarrow> t \<noteq> js ''false'' \<Longrightarrow> parse_value t = Str t"
  by (auto simp: parse_value_def Let_def unquote_def)

lemma parse_value_quoted:
  "\<not> (startsWith t (js ''['') \<and> endsWith t (js '']'')) \<Longrightarrow>
   t \<noteq> js ''true'' \<Longrightarrow> t \<noteq> js ''false'' \<Longrightarrow> parse_value (34 # t @ [34]) = Str t"
  by (auto simp: parse_value_def Let_def unquote_double)

lemma parse_value_StrList:
  assumes "parse_value v = StrList l" "x \<in> set l"
  shows "x \<noteq> [] \<and> 44 \<notin> set x \<and> set x \<subseteq> set v"
proof -
  from assms(1) have l: "l = filter (\<lambda>i. length i > 0)
          (map (\<lambda>item. unquote (js_trim item)) (js_split 44 (slice_1_m1 (unquote v))))"
    by (auto simp: parse_value_def Let_def split: if_splits)
  with assms(2) obtain item where i: "item \<in> set (js_split 44 (slice_1_m1 (unquote v)))"
    "x = unquote (js_trim item)" "x \<noteq> []" by auto
  have "set x \<subseteq> set item" using i(2) set_unquote set_trim by blast
  moreover have "44 \<notin> set item" using split_no_sep i(1) by blast
  moreover have "set item \<subseteq> set v"
    using split_subset [OF i(1)] set_slice set_unquote by blast
  ultimately show ?thesis using i(3) by blast
qed


lemma set_tl_subset: "set (tl xs) \<subseteq> set xs"
  by (cases xs) auto

lemma parse_line_range:
  assumes "\<forall>k val. fm k = Some val \<longrightarrow> (\<exists>v. nl \<notin> set v \<and> val = parse_value v)"
    and "nl \<notin> set line"
  shows "\<forall>k val. parse_line fm line k = Some val \<longrightarrow> (\<exists>v. nl \<notin> set v \<and> val = parse_value v)"
proof (cases "58 \<in> set line")
  case False
  with assms(1) show ?thesis by (simp add: parse_line_def)
next
  case True
  define v where "v = js_trim (tl (dropWhile (\<lambda>c. c \<noteq> 58) line))"
  have "set (tl (dropWhile (\<lambda>c. c \<noteq> 58) line)) \<subseteq> set (dropWhile (\<lambda>c. c \<noteq> 58) line)"
    by (rule set_tl_subset)
  moreover have "set (dropWhile (\<lambda>c. c \<noteq> 58) line) \<subseteq> set line"
    by (auto dest: set_dropWhileD)
  ultimately have "set v \<subseteq> set line"
    unfolding v_def using set_trim [of "tl (dropWhile (\<lambda>c. c \<noteq> 58) line)"] by blast
  with assms(2) have "nl \<notin> set v" by auto
  with assms(1) True show ?thesis
    by (auto simp: parse_line_def Let_def v_def [symmetric])
qed

lemma parse_lines_range:
  assumes "\<forall>k val. fm k = Some val \<longrightarrow> (\<exists>v. nl \<notin> set v \<and> val = parse_value v)"
    and "\<forall>line\<in>set lines. nl \<notin> set line"
  shows "\<forall>k val. foldl parse_line fm lines k = Some val \<longrightarrow> (\<exists>v. nl \<notin> set v \<and> val = parse_value v)"
  using assms
proof (induction lines arbitrary: fm)
  case Nil
  then show ?case by simp
next
  case (Cons line lines)
  from Cons.prems have "\<forall>k val. parse_line fm line k = Some val \<longrightarrow> (\<exists>v. nl \<notin> set v \<and> val = parse_value v)"
    by (intro parse_line_range) simp_all
  from Cons.IH [OF this] Cons.prems(2) show ?case by simp
qed

lemma parse_value_empty: "parse_value [] = Str []"
  by (simp add: parse_value_def unquote_def quoted_def startsWith_def endsWith_def js_def)

lemma parsed_range:
  assumes "parseFrontmatter file = Inr (fm, body)" "fm k = Some val"
  shows "\<exists>v. nl \<notin> set v \<and> val = parse_value v"
proof -
  from assms(1) obtain str where fm: "fm = foldl parse_line initial_frontmatter (js_split nl str)"
    by (auto simp: parseFrontmatter_def split: option.splits)
  have "\<forall>k val. initial_frontmatter k = Some val \<longrightarrow> (\<exists>v. nl \<notin> set v \<and> val = parse_value v)"
    using parse_value_empty by (auto simp: initial_frontmatter_def split: if_splits intro!: exI [of _ "[]"])
  from parse_lines_range [OF this, of "js_split nl str"] split_no_sep [of nl str] assms(2)
  show ?thesis unfolding fm by blast
qed


lemma find_sep_skip:
  "nl \<notin> set a \<Longrightarrow>
   find_sep (nl # q) (a @ y) =
     (case find_sep (nl # q) y of None \<Rightarrow> None | Some (u, v) \<Rightarrow> Some (a @ u, v))"
  by (induction a) (auto simp: startsWith_def split: option.splits)

lemma find_sep_here: "sep \<noteq> [] \<Longrightarrow> find_sep sep (sep @ r) = Some ([], r)"
  by (cases sep) (simp_all add: startsWith_def)

lemma join_Cons: "xs \<noteq> [] \<Longrightarrow> js_join sep (x # xs) = x @ sep @ js_join sep xs"
  by (cases xs) simp_all

lemma join_snoc: "xs \<noteq> [] \<Longrightarrow> js_join sep (xs @ [y]) = js_join sep xs @ sep @ y"
  by (induction sep xs rule: js_join.induct) simp_all

lemma find_sep_lines:
  assumes "lines \<noteq> []" "\<forall>l\<in>set lines. l \<noteq> [] \<and> hd l \<noteq> hyphen \<and> nl \<notin> set l"
  shows "find_sep (nl # js ''---'' @ [nl]) (js_join [nl] lines @ (nl # js ''---'' @ [nl]) @ r)
         = Some (js_join [nl] lines, r)"
  using assms
proof (induction "[nl]" lines rule: js_join.induct)
  case 1
  then show ?case by simp
next
  case (2 x)
  then have "nl \<notin> set x" by simp
  from find_sep_skip [OF this, of "js ''---'' @ [nl]" "(nl # js ''---'' @ [nl]) @ r"]
    find_sep_here [of "nl # js ''---'' @ [nl]" r]
  show ?case by simp
next
  case (3 x y ys)
  define J where "J = js_join [nl] (y # ys)"
  from 3 have ih: "find_sep (nl # js ''---'' @ [nl]) (J @ (nl # js ''---'' @ [nl]) @ r) = Some (J, r)"
    by (simp add: J_def)
  from 3(3) obtain c y' where y: "y = c # y'" "c \<noteq> hyphen" by (cases y) auto
  then obtain z where J: "J = c # z" by (cases ys) (simp_all add: J_def)
  have "find_sep (nl # js ''---'' @ [nl]) (nl # J @ (nl # js ''---'' @ [nl]) @ r) = Some (nl # J, r)"
    using ih y(2) unfolding J by (simp add: startsWith_def js_def hyphen_def)
  moreover from 3(3) have "nl \<notin> set x" by simp
  ultimately show ?case
    using find_sep_skip [of x "js ''---'' @ [nl]" "nl # J @ (nl # js ''---'' @ [nl]) @ r"]
    by (simp add: J_def)
qed

lemma regex_header:
  assumes "mid \<noteq> []" "\<forall>l\<in>set mid. l \<noteq> [] \<and> hd l \<noteq> hyphen \<and> nl \<notin> set l"
  shows "frontmatterRegex (js_join [nl] (js ''---'' # mid @ [js ''---'']) @ nl # r)
         = Some (js_join [nl] mid, r)"
proof -
  have "js_join [nl] (js ''---'' # mid @ [js ''---''])
        = js ''---'' @ [nl] @ js_join [nl] mid @ [nl] @ js ''---''"
    using assms(1) by (simp add: join_Cons join_snoc)
  then have "js_join [nl] (js ''---'' # mid @ [js ''---'']) @ nl # r
        = (js ''---'' @ [nl]) @ (js_join [nl] mid @ (nl # js ''---'' @ [nl]) @ r)"
    by simp
  then show ?thesis
    unfolding frontmatterRegex_def using find_sep_lines [OF assms, of r]
    by (simp add: startsWith_def js_def)
qed

lemma trim_nl: "js_trim (nl # c) = js_trim c"
  by (simp add: js_trim_def isWhiteSpace_def nl_def)

lemma parse_header:
  assumes "mid \<noteq> []" "\<forall>l\<in>set mid. l \<noteq> [] \<and> hd l \<noteq> hyphen \<and> nl \<notin> set l"
  shows "parseFrontmatter (js_join [nl] (js ''---'' # mid @ [js ''---'']) @ nl # r)
         = Inr (foldl parse_line initial_frontmatter mid, js_trim r)"
  using assms by (simp add: parseFrontmatter_def regex_header js_split_join)


lemma escape_quotes_plain: "34 \<notin> set t \<Longrightarrow> escape_quotes t = t"
  by (induction t) (simp_all add: escape_quotes_def)

lemma split_comma_join:
  "44 \<notin> set p \<Longrightarrow> \<forall>y\<in>set (x # xs). 44 \<notin> set y \<Longrightarrow>
   js_split 44 (p @ js_join (js '', '') (x # xs)) = (p @ x) # map (\<lambda>y. 32 # y) xs"
proof (induction xs arbitrary: p x)
  case Nil
  then show ?case by (simp add: js_split_plain)
next
  case (Cons y ys)
  have "p @ js_join (js '', '') (x # y # ys) = (p @ x) @ 44 # ([32] @ js_join (js '', '') (y # ys))"
    by (simp add: js_def)
  moreover have "js_split 44 ((p @ x) @ 44 # ([32] @ js_join (js '', '') (y # ys)))
      = (p @ x) # js_split 44 ([32] @ js_join (js '', '') (y # ys))"
    using Cons.prems by (intro js_split_append) simp
  moreover have "js_split 44 ([32] @ js_join (js '', '') (y # ys)) = ([32] @ y) # map (\<lambda>y. 32 # y) ys"
    using Cons.prems by (intro Cons.IH) simp_all
  ultimately show ?case by simp
qed

lemma tags_value:
  assumes "l \<noteq> []" "\<forall>x\<in>set l. x \<noteq> [] \<and> 44 \<notin> set x"
  shows "parse_value (js_trim (js '' ['' @ js_join (js '', '') (map (\<lambda>t. [39] @ t @ [39]) l) @ js '']''))
         = StrList l"
proof -
  define inner where "inner = js_join (js '', '') (map (\<lambda>t. [39] @ t @ [39]) l)"
  have t: "js_trim (js '' ['' @ inner @ js '']'') = 91 # inner @ [93]"
    using trim_ws_head [of 32 "91 # inner @ [93]"] trim_fixed_ends [of 91 93 inner]
    by (simp add: js_def isWhiteSpace_def)
  have u: "unquote (91 # inner @ [93]) = 91 # inner @ [93]"
    by (simp add: unquote_def quoted_def startsWith_def js_def)
  have b: "startsWith (91 # inner @ [93]) (js ''['')" "endsWith (91 # inner @ [93]) (js '']'')"
    "slice_1_m1 (91 # inner @ [93]) = inner"
    by (simp_all add: startsWith_def endsWith_def slice_1_m1_def js_def)
  from assms(1) obtain x xs where l: "l = x # xs" by (cases l) auto
  have "js_split 44 ([] @ inner) = ([] @ [39] @ x @ [39]) # map (\<lambda>y. 32 # y) (map (\<lambda>t. [39] @ t @ [39]) xs)"
    unfolding inner_def l list.map using assms(2)
    by (intro split_comma_join) (auto simp: l)
  then have sp: "js_split 44 inner = (39 # x @ [39]) # map (\<lambda>t. 32 # 39 # t @ [39]) xs"
    by (simp add: comp_def)
  have it: "unquote (js_trim (39 # y @ [39])) = y" "unquote (js_trim (32 # 39 # y @ [39])) = y" for y
    using trim_ws_head [of 32 "39 # y @ [39]"] trim_fixed_ends [of 39 39 y]
    by (simp_all add: unquote_single isWhiteSpace_def)
  have "map (\<lambda>item. unquote (js_trim item)) (js_split 44 inner) = l"
    by (simp add: sp l it comp_def)
  moreover have "filter (\<lambda>i. length i > 0) l = l" using assms(2) by (simp add: filter_id_conv)
  ultimately show ?thesis
    unfolding inner_def [symmetric] t by (simp add: parse_value_def Let_def u b)
qed

lemma keys_trimmed:
  "58 \<notin> set (js ''title'')" "js_trim (js ''title'') = js ''title''"
  "58 \<notin> set (js ''date'')" "js_trim (js ''date'') = js ''date''"
  "58 \<notin> set (js ''slug'')" "js_trim (js ''slug'') = js ''slug''"
  "58 \<notin> set (js ''tags'')" "js_trim (js ''tags'') = js ''tags''"
  "58 \<notin> set (js ''draft'')" "js_trim (js ''draft'') = js ''draft''"
  by (simp_all add: js_def js_trim_def isWhiteSpace_def)

lemma header_lines:
  "js ''title: \"'' @ t @ js ''\"'' = js ''title'' @ 58 # (32 # 34 # t @ [34])"
  "js ''date: '' @ d = js ''date'' @ 58 # (32 # d)"
  "js ''slug: '' @ d = js ''slug'' @ 58 # (32 # d)"
  "js ''tags: ['' @ x = js ''tags'' @ 58 # (js '' ['' @ x)"
  "js ''draft: false'' = js ''draft'' @ 58 # js '' false''"
  by (simp_all add: js_def)

lemma title_line:
  assumes "\<not> (startsWith t (js ''['') \<and> endsWith t (js '']''))" "t \<noteq> js ''true''" "t \<noteq> js ''false''"
  shows "parse_line fm (js ''title: \"'' @ t @ js ''\"'') = fm(js ''title'' \<mapsto> Str t)"
  unfolding header_lines
  using trim_ws_head [of 32 "34 # t @ [34]"] trim_fixed_ends [of 34 34 t] assms
  by (simp add: key_line keys_trimmed parse_value_quoted isWhiteSpace_def)

lemma plain_line:
  assumes "58 \<notin> set k" "js_trim k = k" "js_trim d = d" "\<not> quoted d"
    "\<not> (startsWith d (js ''['') \<and> endsWith d (js '']''))" "d \<noteq> js ''true''" "d \<noteq> js ''false''"
  shows "parse_line fm (k @ 58 # (32 # d)) = fm(k \<mapsto> Str d)"
  using trim_ws_head [of 32 d] assms
  by (simp add: key_line parse_value_plain isWhiteSpace_def)

lemma draft_line: "parse_line fm (js ''draft: false'') = fm(js ''draft'' \<mapsto> Bool False)"
  unfolding header_lines
  by (simp add: key_line keys_trimmed)
    (simp add: parse_value_def unquote_def quoted_def startsWith_def endsWith_def js_def js_trim_def
      isWhiteSpace_def)

lemma tags_line:
  assumes "l \<noteq> []" "\<forall>x\<in>set l. x \<noteq> [] \<and> 44 \<notin> set x"
  shows "parse_line fm (js ''tags: ['' @ js_join (js '', '') (map (\<lambda>t. [39] @ t @ [39]) l) @ js '']'')
         = fm(js ''tags'' \<mapsto> StrList l)"
  unfolding header_lines using tags_value [OF assms]
  by (simp add: key_line keys_trimmed)


lemma join_without: "c \<notin> set sep \<Longrightarrow> \<forall>x\<in>set xs. c \<notin> set x \<Longrightarrow> c \<notin> set (js_join sep xs)"
  by (induction sep xs rule: js_join.induct) auto

lemma header_keys:
  "js ''title'' \<noteq> js ''date''" "js ''title'' \<noteq> js ''slug''" "js ''title'' \<noteq> js ''tags''"
  "js ''title'' \<noteq> js ''draft''" "js ''date'' \<noteq> js ''slug''" "js ''date'' \<noteq> js ''tags''"
  "js ''date'' \<noteq> js ''draft''" "js ''slug'' \<noteq> js ''tags''" "js ''slug'' \<noteq> js ''draft''"
  "js ''tags'' \<noteq> js ''draft''"
  by (simp_all add: js_def)

lemma header_round_trip:
  assumes t: "\<not> (startsWith t (js ''['') \<and> endsWith t (js '']''))" "t \<noteq> js ''true''"
      "t \<noteq> js ''false''" "nl \<notin> set t" "34 \<notin> set t"
    and d: "\<not> (startsWith d (js ''['') \<and> endsWith d (js '']''))" "d \<noteq> js ''true''"
      "d \<noteq> js ''false''" "nl \<notin> set d" "js_trim d = d" "\<not> quoted d"
    and s: "\<not> (startsWith s (js ''['') \<and> endsWith s (js '']''))" "s \<noteq> js ''true''"
      "s \<noteq> js ''false''" "nl \<notin> set s" "js_trim s = s" "\<not> quoted s"
    and l: "\<forall>x\<in>set l. x \<noteq> [] \<and> 44 \<notin> set x \<and> nl \<notin> set x"
    and post: "post = \<lparr>post_id = i, post_title = Str t, post_slug = Str s, post_date = Str d,
                       post_tags = StrList l, post_content = c\<rparr>"
  shows "\<exists>F fm'. generateFrontmatter post = Inr F \<and>
     js ''title: \"'' @ t @ js ''\"'' \<in> set (js_split nl F) \<and>
     parseFrontmatter (F @ [nl, nl] @ post_content post) = Inr (fm', js_trim (post_content post)) \<and>
     fm' (js ''title'') = Some (Str t) \<and> fm' (js ''date'') = Some (Str d) \<and>
     fm' (js ''slug'') = Some (Str s) \<and>
     fm' (js ''tags'') = (if l = [] then None else Some (StrList l))"
proof -
  define T where "T = js ''title: \"'' @ t @ js ''\"''"
  define D where "D = js ''date: '' @ d"
  define S where "S = js ''slug: '' @ s"
  define G where "G = js ''tags: ['' @ js_join (js '', '') (map (\<lambda>t. [39] @ t @ [39]) l) @ js '']''"
  define R where "R = js ''draft: false''"
  define mid where "mid = [T, D, S] @ (if l = [] then [] else [G]) @ [R]"
  define F where "F = js_join [nl] (js ''---'' # mid @ [js ''---''])"
  define fm' where "fm' = foldl parse_line initial_frontmatter mid"
  have gen: "generateFrontmatter post = Inr F"
    by (simp add: generateFrontmatter_def post escape_quotes_plain [OF t(5)] F_def mid_def
        T_def D_def S_def G_def R_def)
  have "nl \<notin> set (js_join (js '', '') (map (\<lambda>t. [39] @ t @ [39]) l))"
    using l by (intro join_without) (auto simp: js_def nl_def)
  then have nG: "nl \<notin> set G" by (simp add: G_def js_def nl_def)
  have nT: "nl \<notin> set T" "nl \<notin> set D" "nl \<notin> set S" "nl \<notin> set R"
    using t(4) d(4) s(4) by (simp_all add: T_def D_def S_def R_def js_def nl_def)
  have hd: "T \<noteq> [] \<and> hd T \<noteq> hyphen" "D \<noteq> [] \<and> hd D \<noteq> hyphen" "S \<noteq> [] \<and> hd S \<noteq> hyphen"
    "G \<noteq> [] \<and> hd G \<noteq> hyphen" "R \<noteq> [] \<and> hd R \<noteq> hyphen"
    by (simp_all add: T_def D_def S_def G_def R_def js_def hyphen_def)
  have mid: "mid \<noteq> []" "\<forall>x\<in>set mid. x \<noteq> [] \<and> hd x \<noteq> hyphen \<and> nl \<notin> set x"
    using nT nG hd by (simp_all add: mid_def)
  have "parseFrontmatter (F @ nl # (nl # c)) = Inr (fm', js_trim (nl # c))"
    unfolding F_def fm'_def by (rule parse_header [OF mid])
  then have parse: "parseFrontmatter (F @ [nl, nl] @ post_content post) = Inr (fm', js_trim (post_content post))"
    by (simp add: trim_nl post)
  have "js_split nl F = js ''---'' # mid @ [js ''---'']"
    unfolding F_def using mid(2) by (intro js_split_join) (simp_all add: js_def nl_def)
  then have line: "T \<in> set (js_split nl F)" by (simp add: mid_def)
  have pT: "parse_line fm T = fm(js ''title'' \<mapsto> Str t)" for fm
    unfolding T_def by (rule title_line [OF t(1,2,3)])
  have pD: "parse_line fm D = fm(js ''date'' \<mapsto> Str d)" for fm
    unfolding D_def header_lines by (rule plain_line [OF keys_trimmed(3,4) d(5,6) d(1,2,3)])
  have pS: "parse_line fm S = fm(js ''slug'' \<mapsto> Str s)" for fm
    unfolding S_def header_lines by (rule plain_line [OF keys_trimmed(5,6) s(5,6) s(1,2,3)])
  have pR: "parse_line fm R = fm(js ''draft'' \<mapsto> Bool False)" for fm
    unfolding R_def by (rule draft_line)
  have pG: "parse_line fm G = fm(js ''tags'' \<mapsto> StrList l)" if "l \<noteq> []" for fm
    unfolding G_def using that l by (intro tags_line) simp_all
  have none: "initial_frontmatter (js ''tags'') = None"
    by (simp add: initial_frontmatter_def header_keys [symmetric])
  have "fm' (js ''title'') = Some (Str t) \<and> fm' (js ''date'') = Some (Str d) \<and>
     fm' (js ''slug'') = Some (Str s) \<and>
     fm' (js ''tags'') = (if l = [] then None else Some (StrList l))"
  proof (cases "l = []")
    case True
    then have "fm' = initial_frontmatter(js ''title'' \<mapsto> Str t, js ''date'' \<mapsto> Str d,
        js ''slug'' \<mapsto> Str s, js ''draft'' \<mapsto> Bool False)"
      by (simp add: fm'_def mid_def pT pD pS pR)
    with True none show ?thesis by (simp add: header_keys header_keys [symmetric])
  next
    case False
    then have "fm' = initial_frontmatter(js ''title'' \<mapsto> Str t, js ''date'' \<mapsto> Str d,
        js ''slug'' \<mapsto> Str s, js ''tags'' \<mapsto> StrList l, js ''draft'' \<mapsto> Bool False)"
      by (simp add: fm'_def mid_def pT pD pS pR pG)
    with False show ?thesis by (simp add: header_keys header_keys [symmetric])
  qed
  with gen line parse show ?thesis unfolding T_def by blast
qed


text \<open>
  Claim C5. A file that parseFrontmatter accepts, with a title, a date and a slug that are
  strings and tags that are a list: when the parsed title holds no double quote, and the
  parsed date and slug are free of white space at their ends and not wrapped in quotes,
  generateFrontmatter for a post with these four values succeeds, a line of its result is
  \<open>title: "<title>"\<close>, and parsing the file that the pull writes (the generated header, an
  empty line and the content) gives the same title, date and slug back, and the same tags
  when there are any; an empty list of tags is not written and comes back as no tags.
  The examples after the theorem are the header with \<open>title: "Hello, World"\<close>, which comes
  back unchanged, and the header with \<open>title: Say "hi"\<close>: generateFrontmatter puts a
  backslash before each double quote, parseFrontmatter removes none, and the title that
  comes back holds two backslashes.
\<close>

theorem frontmatter_round_trip:
  assumes "parseFrontmatter file = Inr (fm, body)"
    and "fm (js ''title'') = Some (Str t)" and "fm (js ''date'') = Some (Str d)"
    and "fm (js ''slug'') = Some (Str s)" and "fm (js ''tags'') = Some (StrList l)"
    and "34 \<notin> set t"
    and "js_trim d = d" and "\<not> quoted d"
    and "js_trim s = s" and "\<not> quoted s"
    and "post = \<lparr>post_id = i, post_title = Str t, post_slug = Str s, post_date = Str d,
                   post_tags = StrList l, post_content = c\<rparr>"
  shows "\<exists>F fm'. generateFrontmatter post = Inr F \<and>
     js ''title: \"'' @ t @ js ''\"'' \<in> set (js_split nl F) \<and>
     parseFrontmatter (F @ [nl, nl] @ post_content post) = Inr (fm', js_trim (post_content post)) \<and>
     fm' (js ''title'') = Some (Str t) \<and> fm' (js ''date'') = Some (Str d) \<and>
     fm' (js ''slug'') = Some (Str s) \<and>
     fm' (js ''tags'') = (if l = [] then None else Some (StrList l))"
proof -
  from parsed_range [OF assms(1,2)] obtain vt where vt: "nl \<notin> set vt" "parse_value vt = Str t"
    by metis
  from parsed_range [OF assms(1,3)] obtain vd where vd: "nl \<notin> set vd" "parse_value vd = Str d"
    by metis
  from parsed_range [OF assms(1,4)] obtain vs where vs: "nl \<notin> set vs" "parse_value vs = Str s"
    by metis
  from parsed_range [OF assms(1,5)] obtain vl where vl: "nl \<notin> set vl" "parse_value vl = StrList l"
    by metis
  have t: "\<not> (startsWith t (js ''['') \<and> endsWith t (js '']''))" "t \<noteq> js ''true''"
      "t \<noteq> js ''false''" "nl \<notin> set t"
    using parse_value_Str [OF vt(2)] vt(1) set_unquote [of vt] by auto
  have d: "\<not> (startsWith d (js ''['') \<and> endsWith d (js '']''))" "d \<noteq> js ''true''"
      "d \<noteq> js ''false''" "nl \<notin> set d"
    using parse_value_Str [OF vd(2)] vd(1) set_unquote [of vd] by auto
  have s: "\<not> (startsWith s (js ''['') \<and> endsWith s (js '']''))" "s \<noteq> js ''true''"
      "s \<noteq> js ''false''" "nl \<notin> set s"
    using parse_value_Str [OF vs(2)] vs(1) set_unquote [of vs] by auto
  have l: "\<forall>x\<in>set l. x \<noteq> [] \<and> 44 \<notin> set x \<and> nl \<notin> set x"
    using parse_value_StrList [OF vl(2)] vl(1) by blast
  show ?thesis
    by (rule header_round_trip [OF t assms(6) d assms(7,8) s assms(9,10) l assms(11)])
qed

lemma example_header:
  "parseFrontmatter (js_join [nl] (js ''---'' #
      [js ''title: \"Hello, World\"'', js ''date: 2024-01-15'', js ''slug: hello-world'',
       js ''tags: ['greeting', 'first']''] @ [js ''---'']) @ nl # js ''Body'')
   = Inr (foldl parse_line initial_frontmatter
      [js ''title: \"Hello, World\"'', js ''date: 2024-01-15'', js ''slug: hello-world'',
       js ''tags: ['greeting', 'first']''], js_trim (js ''Body''))"
  by (rule parse_header) (simp_all add: js_def hyphen_def nl_def)

lemma example_title: "parse_line fm (js ''title: \"Hello, World\"'') = fm(js ''title'' \<mapsto> Str (js ''Hello, World''))"
  using title_line [of "js ''Hello, World''" fm]
  by (simp add: js_def startsWith_def endsWith_def)

lemma example_date: "parse_line fm (js ''date: 2024-01-15'') = fm(js ''date'' \<mapsto> Str (js ''2024-01-15''))"
  using plain_line [OF keys_trimmed(3,4), of "js ''2024-01-15''" fm]
  by (simp add: js_def startsWith_def endsWith_def quoted_def js_trim_def isWhiteSpace_def)

lemma example_slug: "parse_line fm (js ''slug: hello-world'') = fm(js ''slug'' \<mapsto> Str (js ''hello-world''))"
  using plain_line [OF keys_trimmed(5,6), of "js ''hello-world''" fm]
  by (simp add: js_def startsWith_def endsWith_def quoted_def js_trim_def isWhiteSpace_def)

lemma example_tags:
  "parse_line fm (js ''tags: ['greeting', 'first']'') = fm(js ''tags'' \<mapsto> StrList [js ''greeting'', js ''first''])"
  using tags_line [of "[js ''greeting'', js ''first'']" fm]
  by (simp add: js_def)

lemma example_fields:
  "foldl parse_line initial_frontmatter
      [js ''title: \"Hello, World\"'', js ''date: 2024-01-15'', js ''slug: hello-world'',
       js ''tags: ['greeting', 'first']'']
   = initial_frontmatter(js ''title'' \<mapsto> Str (js ''Hello, World''),
       js ''date'' \<mapsto> Str (js ''2024-01-15''), js ''slug'' \<mapsto> Str (js ''hello-world''),
       js ''tags'' \<mapsto> StrList [js ''greeting'', js ''first''])"
  by (simp add: example_title example_date example_slug example_tags)

theorem frontmatter_round_trip_witness:
  "\<exists>F fm'. generateFrontmatter \<lparr>post_id = [], post_title = Str (js ''Hello, World''),
        post_slug = Str (js ''hello-world''), post_date = Str (js ''2024-01-15''),
        post_tags = StrList [js ''greeting'', js ''first''], post_content = js ''Body''\<rparr> = Inr F \<and>
     js ''title: \"Hello, World\"'' \<in> set (js_split nl F) \<and>
     parseFrontmatter (F @ [nl, nl] @ js ''Body'') = Inr (fm', js ''Body'') \<and>
     fm' (js ''title'') = Some (Str (js ''Hello, World'')) \<and>
     fm' (js ''date'') = Some (Str (js ''2024-01-15'')) \<and>
     fm' (js ''slug'') = Some (Str (js ''hello-world'')) \<and>
     fm' (js ''tags'') = Some (StrList [js ''greeting'', js ''first''])"
proof -
  define post where "post = \<lparr>post_id = [], post_title = Str (js ''Hello, World''),
        post_slug = Str (js ''hello-world''), post_date = Str (js ''2024-01-15''),
        post_tags = StrList [js ''greeting'', js ''first''], post_content = js ''Body''\<rparr>"
  have f: "(initial_frontmatter(js ''title'' \<mapsto> Str (js ''Hello, World''),
       js ''date'' \<mapsto> Str (js ''2024-01-15''), js ''slug'' \<mapsto> Str (js ''hello-world''),
       js ''tags'' \<mapsto> StrList [js ''greeting'', js ''first''])) (js ''title'') = Some (Str (js ''Hello, World''))"
    "(initial_frontmatter(js ''title'' \<mapsto> Str (js ''Hello, World''),
       js ''date'' \<mapsto> Str (js ''2024-01-15''), js ''slug'' \<mapsto> Str (js ''hello-world''),
       js ''tags'' \<mapsto> StrList [js ''greeting'', js ''first''])) (js ''date'') = Some (Str (js ''2024-01-15''))"
    "(initial_frontmatter(js ''title'' \<mapsto> Str (js ''Hello, World''),
       js ''date'' \<mapsto> Str (js ''2024-01-15''), js ''slug'' \<mapsto> Str (js ''hello-world''),
       js ''tags'' \<mapsto> StrList [js ''greeting'', js ''first''])) (js ''slug'') = Some (Str (js ''hello-world''))"
    "(initial_frontmatter(js ''title'' \<mapsto> Str (js ''Hello, World''),
       js ''date'' \<mapsto> Str (js ''2024-01-15''), js ''slug'' \<mapsto> Str (js ''hello-world''),
       js ''tags'' \<mapsto> StrList [js ''greeting'', js ''first''])) (js ''tags'') = Some (StrList [js ''greeting'', js ''first''])"
    by (simp_all add: header_keys header_keys [symmetric])
  have c: "34 \<notin> set (js ''Hello, World'')"
    "js_trim (js ''2024-01-15'') = js ''2024-01-15''" "\<not> quoted (js ''2024-01-15'')"
    "js_trim (js ''hello-world'') = js ''hello-world''" "\<not> quoted (js ''hello-world'')"
    by (simp_all add: js_def js_trim_def isWhiteSpace_def quoted_def startsWith_def endsWith_def)
  have b: "js_trim (js ''Body'') = js ''Body''" "post_content post = js ''Body''"
    "js ''title: \"'' @ js ''Hello, World'' @ js ''\"'' = js ''title: \"Hello, World\"''"
    "post = \<lparr>post_id = [], post_title = Str (js ''Hello, World''),
        post_slug = Str (js ''hello-world''), post_date = Str (js ''2024-01-15''),
        post_tags = StrList [js ''greeting'', js ''first''], post_content = js ''Body''\<rparr>"
    by (simp_all add: js_def js_trim_def isWhiteSpace_def post_def)
  from frontmatter_round_trip [OF example_header [unfolded example_fields] f c post_def]
  obtain F fm' where "generateFrontmatter post = Inr F"
     "js ''title: \"'' @ js ''Hello, World'' @ js ''\"'' \<in> set (js_split nl F)"
     "parseFrontmatter (F @ [nl, nl] @ post_content post) = Inr (fm', js_trim (post_content post))"
     "fm' (js ''title'') = Some (Str (js ''Hello, World''))"
     "fm' (js ''date'') = Some (Str (js ''2024-01-15''))"
     "fm' (js ''slug'') = Some (Str (js ''hello-world''))"
     "fm' (js ''tags'') = (if [js ''greeting'', js ''first''] = [] then None
                          else Some (StrList [js ''greeting'', js ''first'']))"
    by blast
  then show ?thesis by (intro exI [of _ F] exI [of _ fm']) (simp add: b(1,2,3) b(4) [symmetric])
qed

theorem frontmatter_quote_counterexample:
  "(case parseFrontmatter (js_join [nl] (js ''---'' #
        [js ''title: Say \"hi\"'', js ''date: 2024-01-15'', js ''slug: say-hi'', js ''tags: ['a']'']
        @ [js ''---'']) @ nl # js ''Body'')
    of Inl e \<Rightarrow> None
     | Inr (fm, body) \<Rightarrow>
         Some (fm (js ''title''), fm (js ''date''), fm (js ''slug''), fm (js ''tags''), body))
   = Some (Some (Str (js ''Say \"hi\"'')), Some (Str (js ''2024-01-15'')), Some (Str (js ''say-hi'')),
           Some (StrList [js ''a'']), js ''Body'') \<and>
   generateFrontmatter \<lparr>post_id = [], post_title = Str (js ''Say \"hi\"''),
          post_slug = Str (js ''say-hi''), post_date = Str (js ''2024-01-15''),
          post_tags = StrList [js ''a''], post_content = js ''Body''\<rparr>
   = Inr (js_join [nl] (js ''---'' #
        [js ''title: \"Say '' @ [92, 34] @ js ''hi'' @ [92, 34] @ js ''\"'', js ''date: 2024-01-15'',
         js ''slug: say-hi'', js ''tags: ['a']'', js ''draft: false''] @ [js ''---''])) \<and>
   (case parseFrontmatter (js_join [nl] (js ''---'' #
        [js ''title: \"Say '' @ [92, 34] @ js ''hi'' @ [92, 34] @ js ''\"'', js ''date: 2024-01-15'',
         js ''slug: say-hi'', js ''tags: ['a']'', js ''draft: false''] @ [js ''---''])
        @ [nl, nl] @ js ''Body'')
    of Inl e \<Rightarrow> None | Inr (fm, body) \<Rightarrow> fm (js ''title''))
   = Some (Str (js ''Say '' @ [92, 34] @ js ''hi'' @ [92, 34])) \<and>
   js ''Say '' @ [92, 34] @ js ''hi'' @ [92, 34] \<noteq> js ''Say \"hi\"''"
proof (intro conjI)
  have p1: "parseFrontmatter (js_join [nl] (js ''---'' #
        [js ''title: Say \"hi\"'', js ''date: 2024-01-15'', js ''slug: say-hi'', js ''tags: ['a']'']
        @ [js ''---'']) @ nl # js ''Body'')
     = Inr (foldl parse_line initial_frontmatter
        [js ''title: Say \"hi\"'', js ''date: 2024-01-15'', js ''slug: say-hi'', js ''tags: ['a']''],
        js_trim (js ''Body''))"
    by (rule parse_header) (simp_all add: js_def hyphen_def nl_def)
  have l1: "parse_line fm (js ''title: Say \"hi\"'') = fm(js ''title'' \<mapsto> Str (js ''Say \"hi\"''))" for fm
    using plain_line [OF keys_trimmed(1,2), of "js ''Say \"hi\"''" fm]
    by (simp add: js_def startsWith_def endsWith_def quoted_def js_trim_def isWhiteSpace_def)
  have l2: "parse_line fm (js ''date: 2024-01-15'') = fm(js ''date'' \<mapsto> Str (js ''2024-01-15''))" for fm
    using plain_line [OF keys_trimmed(3,4), of "js ''2024-01-15''" fm]
    by (simp add: js_def startsWith_def endsWith_def quoted_def js_trim_def isWhiteSpace_def)
  have l3: "parse_line fm (js ''slug: say-hi'') = fm(js ''slug'' \<mapsto> Str (js ''say-hi''))" for fm
    using plain_line [OF keys_trimmed(5,6), of "js ''say-hi''" fm]
    by (simp add: js_def startsWith_def endsWith_def quoted_def js_trim_def isWhiteSpace_def)
  have l4: "parse_line fm (js ''tags: ['a']'') = fm(js ''tags'' \<mapsto> StrList [js ''a''])" for fm
    using tags_line [of "[js ''a'']" fm] by (simp add: js_def)
  have l5: "parse_line fm (js ''title: \"Say '' @ [92, 34] @ js ''hi'' @ [92, 34] @ js ''\"'')
      = fm(js ''title'' \<mapsto> Str (js ''Say '' @ [92, 34] @ js ''hi'' @ [92, 34]))" for fm
    using title_line [of "js ''Say '' @ [92, 34] @ js ''hi'' @ [92, 34]" fm]
    by (simp add: js_def startsWith_def endsWith_def)
  have b: "js_trim (js ''Body'') = js ''Body''"
    by (simp add: js_def js_trim_def isWhiteSpace_def)
  show "(case parseFrontmatter (js_join [nl] (js ''---'' #
        [js ''title: Say \"hi\"'', js ''date: 2024-01-15'', js ''slug: say-hi'', js ''tags: ['a']'']
        @ [js ''---'']) @ nl # js ''Body'')
    of Inl e \<Rightarrow> None
     | Inr (fm, body) \<Rightarrow>
         Some (fm (js ''title''), fm (js ''date''), fm (js ''slug''), fm (js ''tags''), body))
   = Some (Some (Str (js ''Say \"hi\"'')), Some (Str (js ''2024-01-15'')), Some (Str (js ''say-hi'')),
           Some (StrList [js ''a'']), js ''Body'')"
    unfolding p1 by (simp add: l1 l2 l3 l4 b header_keys header_keys [symmetric])
  show "generateFrontmatter \<lparr>post_id = [], post_title = Str (js ''Say \"hi\"''),
          post_slug = Str (js ''say-hi''), post_date = Str (js ''2024-01-15''),
          post_tags = StrList [js ''a''], post_content = js ''Body''\<rparr>
   = Inr (js_join [nl] (js ''---'' #
        [js ''title: \"Say '' @ [92, 34] @ js ''hi'' @ [92, 34] @ js ''\"'', js ''date: 2024-01-15'',
         js ''slug: say-hi'', js ''tags: ['a']'', js ''draft: false''] @ [js ''---'']))"
    by (simp add: generateFrontmatter_def escape_quotes_def js_def)
  have p2: "parseFrontmatter (js_join [nl] (js ''---'' #
        [js ''title: \"Say '' @ [92, 34] @ js ''hi'' @ [92, 34] @ js ''\"'', js ''date: 2024-01-15'',
         js ''slug: say-hi'', js ''tags: ['a']'', js ''draft: false''] @ [js ''---''])
        @ nl # (nl # js ''Body''))
     = Inr (foldl parse_line initial_frontmatter
        [js ''title: \"Say '' @ [92, 34] @ js ''hi'' @ [92, 34] @ js ''\"'', js ''date: 2024-01-15'',
         js ''slug: say-hi'', js ''tags: ['a']'', js ''draft: false''], js_trim (nl # js ''Body''))"
    by (rule parse_header) (simp_all add: js_def hyphen_def nl_def)
  have e: "[nl, nl] @ js ''Body'' = nl # (nl # js ''Body'')" by simp
  show "(case parseFrontmatter (js_join [nl] (js ''---'' #
        [js ''title: \"Say '' @ [92, 34] @ js ''hi'' @ [92, 34] @ js ''\"'', js ''date: 2024-01-15'',
         js ''slug: say-hi'', js ''tags: ['a']'', js ''draft: false''] @ [js ''---''])
        @ [nl, nl] @ js ''Body'')
    of Inl e \<Rightarrow> None | Inr (fm, body) \<Rightarrow> fm (js ''title''))
   = Some (Str (js ''Say '' @ [92, 34] @ js ''hi'' @ [92, 34]))"
    by (simp only: e p2 sum.case prod.case foldl.simps l5 l2 l3 l4 draft_line)
      (simp add: header_keys header_keys [symmetric])
  show "js ''Say '' @ [92, 34] @ js ''hi'' @ [92, 34] \<noteq> js ''Say \"hi\"''"
    by (simp add: js_def)
qed

end
